theory Spec2Isabelle
  imports Main "HOL-Library.Word"
begin

unbundle bit_operations_syntax

section \<open>MySQLAuth user catalog (dbusers.c)\<close>

subsection \<open>C strings\<close>

text \<open>
  A C string is modelled by the list of its bytes before the terminating NUL; a
  \<^verbatim>\<open>char *\<close> that may be \<^verbatim>\<open>NULL\<close> is a \<open>string option\<close>.
  \<^verbatim>\<open>strstr\<close> and \<^verbatim>\<open>strchr\<close> return the suffix that starts at the first
  occurrence, or \<open>None\<close> for \<^verbatim>\<open>NULL\<close>.
\<close>

fun strstr :: "string \<Rightarrow> string \<Rightarrow> string option" where
  "strstr [] needle = (if needle = [] then Some [] else None)"
| "strstr (c # cs) needle =
     (if take (length needle) (c # cs) = needle then Some (c # cs) else strstr cs needle)"

fun strchr :: "string \<Rightarrow> char \<Rightarrow> string option" where
  "strchr [] ch = None"
| "strchr (c # cs) ch = (if c = ch then Some (c # cs) else strchr cs ch)"

definition isdigit :: "char \<Rightarrow> bool" where
  "isdigit c = (of_char c \<in> {48 .. 57 :: nat})"

subsection \<open>The grant query\<close>

definition MYSQL_PASSWORD :: string where
  "MYSQL_PASSWORD = ''password''"

definition MYSQL57_PASSWORD :: string where
  "MYSQL57_PASSWORD = ''authentication_string''"

text \<open>
  \<^verbatim>\<open>NEW_LOAD_DBUSERS_QUERY\<close> is a format string with four \<^verbatim>\<open>%s\<close> directives; the
  backslash-newlines of the macro splice the indentation of the following lines into the
  literal. The definition is the text \<^verbatim>\<open>snprintf\<close> produces from the four arguments.
\<close>

definition NEW_LOAD_DBUSERS_QUERY :: "string \<Rightarrow> string \<Rightarrow> string \<Rightarrow> string \<Rightarrow> string" where
  "NEW_LOAD_DBUSERS_QUERY a1 a2 a3 a4 =
     ''SELECT u.user, u.host, d.db, u.select_priv, u.'' @ a1 @
     ''     FROM mysql.user AS u LEFT JOIN mysql.db AS d     ON (u.user = d.user AND u.host = d.host) '' @ a2 @
     ''     UNION     SELECT u.user, u.host, t.db, u.select_priv, u.'' @ a3 @
     ''     FROM mysql.user AS u LEFT JOIN mysql.tables_priv AS t     ON (u.user = t.user AND u.host = t.host) '' @ a4"

text \<open>The clause \<^verbatim>\<open>WHERE u.user NOT IN ('root')\<close>; \<open>CHR 0x27\<close> is the single quote.\<close>

definition root_filter_clause :: string where
  "root_filter_clause = ''WHERE u.user NOT IN ('' @ [CHR 0x27] @ ''root'' @ [CHR 0x27] @ '')''"

text \<open>
  \<^verbatim>\<open>get_new_users_query(server_version, include_root)\<close>. The first argument of the model
  says whether \<^verbatim>\<open>MXS_MALLOC\<close> returned a buffer; the function returns \<^verbatim>\<open>NULL\<close>
  when it did not.
\<close>

definition get_new_users_query :: "bool \<Rightarrow> string \<Rightarrow> bool \<Rightarrow> string option" where
  "get_new_users_query malloc_ok server_version include_root =
     (let password = (if strstr server_version ''5.7.'' \<noteq> None then MYSQL57_PASSWORD
                      else MYSQL_PASSWORD);
          with_root = (if include_root then root_filter_clause else [])
      in if malloc_ok
         then Some (NEW_LOAD_DBUSERS_QUERY password with_root password with_root)
         else None)"

text \<open>Whether a query text contains the clause that filters the user root out.\<close>

definition excludes_root :: "string option \<Rightarrow> bool" where
  "excludes_root q =
     (case q of None \<Rightarrow> False | Some txt \<Rightarrow> strstr txt root_filter_clause \<noteq> None)"

subsection \<open>Single-character wildcard host matching\<close>

text \<open>
  \<^verbatim>\<open>host_matches_singlechar_wildcard(user, wild)\<close>: both C strings are walked in
  step while neither has reached its terminating NUL; a position where the bytes differ
  and the pattern byte is not an underscore returns false; leaving the loop returns true.
\<close>

fun host_matches_singlechar_wildcard :: "string \<Rightarrow> string \<Rightarrow> bool" where
  "host_matches_singlechar_wildcard (u # us) (w # ws) =
     (if u \<noteq> w \<and> w \<noteq> CHR ''_'' then False
      else host_matches_singlechar_wildcard us ws)"
| "host_matches_singlechar_wildcard us ws = True"

subsection \<open>The user@host key and its comparison\<close>

text \<open>
  \<^verbatim>\<open>MYSQL_USER_HOST\<close>: \<open>user\<close> and \<open>resource\<close> are pointers that may be
  \<^verbatim>\<open>NULL\<close>, \<open>ipv4\<close> is \<^verbatim>\<open>ipv4.sin_addr.s_addr\<close> (the only part of the socket
  address the code of this file compares), \<open>netmask\<close> is a C \<^verbatim>\<open>int\<close> and \<open>hostname\<close>
  is the character array inside the struct.
\<close>

record MYSQL_USER_HOST =
  user :: "string option"
  ipv4 :: "32 word"
  netmask :: int
  resource :: "string option"
  hostname :: string

datatype error =
    BufferOverflow
  | NullDereference
  | MalformedInput

text \<open>
  The wildcard branch of \<^verbatim>\<open>uh_cmpfun\<close> copies the stored resource into
  \<^verbatim>\<open>char db[MYSQL_DATABASE_MAXLEN * 2 + 1]\<close> and, from the last percent sign to the
  first, moves the tail one byte to the right and writes \<^verbatim>\<open>.*\<close> over the sign. The
  text that results has every percent sign replaced by \<^verbatim>\<open>.*\<close>.
\<close>

fun percent_to_regex :: "string \<Rightarrow> string" where
  "percent_to_regex [] = []"
| "percent_to_regex (c # cs) =
     (if c = CHR ''%'' then ''.*'' @ percent_to_regex cs else c # percent_to_regex cs)"

text \<open>
  The condition of the outer \<^verbatim>\<open>if\<close> of \<^verbatim>\<open>uh_cmpfun\<close>: equal user names, and
  either both keys carry a host name and the single-character wildcard match succeeds,
  or not both do, the addresses are equal and the netmask of the first key is at least
  that of the second.
\<close>

definition uh_host_matches :: "string \<Rightarrow> string \<Rightarrow> MYSQL_USER_HOST \<Rightarrow> MYSQL_USER_HOST \<Rightarrow> bool" where
  "uh_host_matches u1 u2 hu1 hu2 =
     (let wildcard_host = (length (hostname hu2) > 0 \<and> length (hostname hu1) > 0)
      in u1 = u2 \<and>
         ((wildcard_host \<and> host_matches_singlechar_wildcard (hostname hu1) (hostname hu2)) \<or>
          (\<not> wildcard_host \<and> ipv4 hu1 = ipv4 hu2 \<and> netmask hu1 \<ge> netmask hu2)))"

text \<open>
  The body of that \<^verbatim>\<open>if\<close>: the database rule. \<open>dbmax\<close> is
  \<^verbatim>\<open>MYSQL_DATABASE_MAXLEN\<close>, a constant of a header that is not part of this file.
  \<open>regex pat s\<close> stands for the C library's \<^verbatim>\<open>regcomp\<close> with
  \<^verbatim>\<open>REG_ICASE | REG_NOSUB\<close> followed by \<^verbatim>\<open>regexec\<close>: \<open>None\<close> when the pattern
  does not compile, otherwise whether \<open>s\<close> matches.
\<close>

definition uh_resource_rule ::
  "nat \<Rightarrow> (string \<Rightarrow> string \<Rightarrow> bool option) \<Rightarrow> MYSQL_USER_HOST \<Rightarrow> MYSQL_USER_HOST \<Rightarrow> error + int" where
  "uh_resource_rule dbmax regex hu1 hu2 =
     (case resource hu1 of
        None \<Rightarrow> Inr 0
      | Some r1 \<Rightarrow>
          if length r1 = 0 then Inr 0
          else
            (case resource hu2 of
               None \<Rightarrow> Inr 1
             | Some r2 \<Rightarrow>
                 if length r2 = 0 then Inr 0
                 else if r1 = r2 then Inr 0
                 else if strchr r2 (CHR ''%'') \<noteq> None then
                   (if length (percent_to_regex r2) > dbmax * 2 then Inl BufferOverflow
                    else
                      (case regex (percent_to_regex r2) r1 of
                         None \<Rightarrow> Inr 1
                       | Some matched \<Rightarrow> if matched then Inr 0 else Inr 1))
                 else Inr 1))"

text \<open>
  \<^verbatim>\<open>uh_cmpfun(v1, v2)\<close>: 0 stands for a match, 1 for none. In the lookups of the
  users table the first key is the client's and the second a stored row.
\<close>

definition uh_cmpfun ::
  "nat \<Rightarrow> (string \<Rightarrow> string \<Rightarrow> bool option) \<Rightarrow>
   MYSQL_USER_HOST option \<Rightarrow> MYSQL_USER_HOST option \<Rightarrow> error + int" where
  "uh_cmpfun dbmax regex v1 v2 =
     (case (v1, v2) of
        (Some hu1, Some hu2) \<Rightarrow>
          (case (user hu1, user hu2) of
             (Some u1, Some u2) \<Rightarrow>
               if uh_host_matches u1 u2 hu1 hu2 then uh_resource_rule dbmax regex hu1 hu2
               else Inr 1
           | _ \<Rightarrow> Inr 0)
      | _ \<Rightarrow> Inr 0)"

text \<open>
  The address of a dotted quad as \<^verbatim>\<open>inet_pton\<close> stores it in \<^verbatim>\<open>s_addr\<close> on a
  little-endian host: network byte order in memory, so that the first octet is the low
  byte of the integer. \<^verbatim>\<open>add_mysql_users_with_host_ipv4\<close> relies on that layout when
  it clears the last octet with \<^verbatim>\<open>s_addr &= 0x00FFFFFF\<close>.
\<close>

definition s_addr_of :: "nat \<Rightarrow> nat \<Rightarrow> nat \<Rightarrow> nat \<Rightarrow> 32 word" where
  "s_addr_of a b c d = of_nat (a + 256 * b + 65536 * c + 16777216 * d)"


text \<open>
  The two keys of a numeric lookup: the client's key, with netmask 32 and no host name,
  and a stored row with address \<open>p\<close>, \<open>k\<close> prefix bits and no host name.
\<close>

text \<open>A C library whose \<^verbatim>\<open>regcomp\<close> compiles no pattern, for the examples.\<close>

definition no_regex :: "string \<Rightarrow> string \<Rightarrow> bool option" where
  "no_regex pat s = None"

definition client_key :: "string \<Rightarrow> 32 word \<Rightarrow> string option \<Rightarrow> MYSQL_USER_HOST" where
  "client_key u c r = \<lparr>user = Some u, ipv4 = c, netmask = 32, resource = r, hostname = []\<rparr>"

definition prefix_row :: "string \<Rightarrow> 32 word \<Rightarrow> int \<Rightarrow> string option \<Rightarrow> MYSQL_USER_HOST" where
  "prefix_row u p k r = \<lparr>user = Some u, ipv4 = p, netmask = k, resource = r, hostname = []\<rparr>"

subsection \<open>Host name normalisation\<close>

text \<open>
  \<^verbatim>\<open>merge_netmask(host)\<close> rewrites the string in place. The character at the first
  slash becomes NUL, which leaves two C strings: the address before it and the mask after
  it. The loop looks at the byte at each of the two token pointers, then moves both to
  the byte after the next dot of their string. \<open>merge_loop ip msk\<close> is the loop from a
  pair of token pointers on: \<open>ip\<close> and \<open>msk\<close> are the strings that start at the two
  pointers, the result is whether the merge went through, with the address string from
  the token pointer on as the loop leaves it.
\<close>

function merge_loop :: "string \<Rightarrow> string \<Rightarrow> bool \<times> string" where
  "merge_loop ip msk =
     (case (if take 3 msk = ''255'' then Some ip
            else if take 1 msk = ''0'' \<and> take 1 ip = ''0'' then Some (CHR ''%'' # tl ip)
            else None) of
        None \<Rightarrow> (False, ip)
      | Some ip1 \<Rightarrow>
          (case (strchr ip1 (CHR ''.''), strchr msk (CHR ''.'')) of
             (Some ir, Some mr) \<Rightarrow>
               (case merge_loop (tl ir) (tl mr) of
                  (ok, r) \<Rightarrow> (ok, takeWhile (\<lambda>c. c \<noteq> CHR ''.'') ip1 @ ''.'' @ r))
           | (None, None) \<Rightarrow> (True, ip1)
           | _ \<Rightarrow> (False, ip1)))"
  by pat_completeness auto
termination
proof (relation "measure (\<lambda>(ip, msk). length ip)")
  have len: "strchr s c = Some r \<Longrightarrow> r \<noteq> [] \<and> length r \<le> length s" for s c r
    by (induction s) (auto split: if_splits)
  fix ip msk :: string and x2 x y x2a x2b
  assume a: "(if take 3 msk = ''255'' then Some ip
            else if take 1 msk = ''0'' \<and> take 1 ip = ''0'' then Some (CHR ''%'' # tl ip)
            else None) = Some x2"
    and b: "(x, y) = (strchr x2 CHR ''.'', strchr msk CHR ''.'')" "x = Some x2a"
  from a have "length x2 = length ip"
    by (cases ip) (auto split: if_splits)
  moreover from b have "x2a \<noteq> [] \<and> length x2a \<le> length x2"
    using len [of x2 "CHR ''.''" x2a] by simp
  ultimately show "((tl x2a, tl x2b), ip, msk) \<in> measure (\<lambda>(ip, msk). length ip)"
    by (cases x2a) auto
qed simp

text \<open>
  When the merge fails, the slash is written back, so the string is the (possibly
  partly rewritten) address, the slash and the mask; when it goes through, the string
  ends where the slash was.
\<close>

definition merge_netmask :: "string \<Rightarrow> string" where
  "merge_netmask host =
     (case strchr host (CHR ''/'') of
        None \<Rightarrow> host
      | Some rest \<Rightarrow>
          (case merge_loop (takeWhile (\<lambda>c. c \<noteq> CHR ''/'') host) (tl rest) of
             (ok, ip) \<Rightarrow> if ok then ip else ip @ ''/'' @ tl rest))"

text \<open>
  \<^verbatim>\<open>strtok_r(s, ".", &lasts)\<close>: skip the dots at the front; at the end of the string
  there is no token; otherwise the token runs to the next dot, and the scan resumes
  after that dot. \<open>strtok_all\<close> lists the tokens the successive calls of the loop of
  \<^verbatim>\<open>normalize_hostname\<close> return.
\<close>

definition strtok_r :: "string \<Rightarrow> (string \<times> string) option" where
  "strtok_r s =
     (let s1 = dropWhile (\<lambda>c. c = CHR ''.'') s
      in if s1 = [] then None
         else Some (takeWhile (\<lambda>c. c \<noteq> CHR ''.'') s1,
                    drop 1 (dropWhile (\<lambda>c. c \<noteq> CHR ''.'') s1)))"

function strtok_all :: "string \<Rightarrow> string list" where
  "strtok_all s = (case strtok_r s of None \<Rightarrow> [] | Some (p, lasts) \<Rightarrow> p # strtok_all lasts)"
  by pat_completeness auto
termination
proof (relation "measure length")
  fix s :: string and x2 p lasts
  assume "strtok_r s = Some x2" "(p, lasts) = x2"
  then have "lasts = drop 1 (dropWhile (\<lambda>c. c \<noteq> CHR ''.'') (dropWhile (\<lambda>c. c = CHR ''.'') s))"
    and "dropWhile (\<lambda>c. c = CHR ''.'') s \<noteq> []"
    by (auto simp: strtok_r_def Let_def split: if_splits)
  moreover have "length (dropWhile (\<lambda>c. c = CHR ''.'') s) \<le> length s"
    by (rule length_dropWhile_le)
  moreover have "dropWhile (\<lambda>c. c = CHR ''.'') s \<noteq> [] \<Longrightarrow>
      length (drop 1 (dropWhile (\<lambda>c. c \<noteq> CHR ''.'') (dropWhile (\<lambda>c. c = CHR ''.'') s)))
        < length (dropWhile (\<lambda>c. c = CHR ''.'') s)"
    using length_dropWhile_le [of "\<lambda>c. c \<noteq> CHR ''.''" "dropWhile (\<lambda>c. c = CHR ''.'') s"]
    by (cases "dropWhile (\<lambda>c. c = CHR ''.'') s") (auto simp: less_Suc_eq_le)
  ultimately show "(lasts, s) \<in> measure length" by simp
qed simp

text \<open>\<^verbatim>\<open>isdigit(*p)\<close>; the byte at the end of a string is NUL, which is no digit.\<close>

definition first_is_digit :: "string \<Rightarrow> bool" where
  "first_is_digit p = (case p of [] \<Rightarrow> False | c # cs \<Rightarrow> isdigit c)"

text \<open>The local variables of \<^verbatim>\<open>normalize_hostname\<close> that its loop updates.\<close>

record norm_state =
  output_host :: string
  bits :: int
  bytes :: int
  found_wildcard :: bool
  useorig :: bool

definition init_state :: norm_state where
  "init_state =
     \<lparr>output_host = [], bits = 0, bytes = 0, found_wildcard = False, useorig = False\<rparr>"

text \<open>
  One round of the \<^verbatim>\<open>while (p != NULL)\<close> loop for the token \<open>p\<close>; \<open>has_next\<close> says
  whether the \<^verbatim>\<open>strtok_r\<close> call at the end of the round returned another token.
\<close>

definition normalize_step :: "string \<Rightarrow> bool \<Rightarrow> norm_state \<Rightarrow> norm_state" where
  "normalize_step p has_next st =
     (let st1 =
            (if p \<noteq> ''%'' then
               st\<lparr>useorig := (if \<not> first_is_digit p then True else useorig st),
                  output_host := output_host st @ p,
                  bits := bits st + 8\<rparr>
             else if bytes st = 3 then
               st\<lparr>found_wildcard := True, output_host := output_host st @ ''1''\<rparr>
             else
               st\<lparr>found_wildcard := True, output_host := output_host st @ ''0''\<rparr>);
          st2 = st1\<lparr>bytes := bytes st1 + 1\<rparr>
      in if has_next then st2\<lparr>output_host := output_host st2 @ ''.''\<rparr> else st2)"

fun normalize_tokens :: "string list \<Rightarrow> norm_state \<Rightarrow> norm_state" where
  "normalize_tokens [] st = st"
| "normalize_tokens (p # ps) st = normalize_tokens ps (normalize_step p (ps \<noteq> []) st)"

text \<open>
  \<^verbatim>\<open>while (bytes++ < 4)\<close>: what the padding loop appends when it starts with
  \<^verbatim>\<open>bytes\<close> equal to \<open>n\<close>.
\<close>

function pad_octets :: "int \<Rightarrow> string" where
  "pad_octets n =
     (if n < 4
      then (if n + 1 = 4 then ''.1'' else ''.0'') @ pad_octets (n + 1)
      else [])"
  by pat_completeness auto
termination
  by (relation "measure (\<lambda>b. nat (4 - b))") auto

text \<open>
  \<^verbatim>\<open>normalize_hostname(input_host, output_host)\<close> returns the netmask and leaves the
  normalised host in the caller's buffer; the model returns both. Its first argument
  says whether \<^verbatim>\<open>MXS_STRDUP\<close> succeeded; when it did not, the function returns -1
  with the buffer empty.
\<close>

definition normalize_hostname :: "bool \<Rightarrow> string \<Rightarrow> int \<times> string" where
  "normalize_hostname strdup_ok input_host =
     (if \<not> strdup_ok then (-1, [])
      else
        (let tmp = merge_netmask input_host;
             st = normalize_tokens (strtok_all tmp) init_state;
             (netmask, out) =
               (if found_wildcard st then (bits st, output_host st @ pad_octets (bytes st))
                else (32, output_host st))
         in if useorig st then (32, input_host) else (netmask, out)))"

subsection \<open>The SQLite user database\<close>

text \<open>
  A result row as \<^verbatim>\<open>sqlite3_exec\<close> and \<^verbatim>\<open>mysql_fetch_row\<close> hand it over: five
  columns \<^verbatim>\<open>row[0]\<close> to \<^verbatim>\<open>row[4]\<close>, each a C string or \<^verbatim>\<open>NULL\<close>. In the users
  table the columns are user, host, db, anydb and password.
\<close>

record row5 =
  c0 :: "string option"
  c1 :: "string option"
  c2 :: "string option"
  c3 :: "string option"
  c4 :: "string option"

text \<open>
  An SQLite handle: the rows of the users table and of the databases table, in the
  order of insertion, which is the order a \<^verbatim>\<open>SELECT\<close> without a sort visits them.
  The statement texts (\<^verbatim>\<open>insert_user_query\<close>, \<^verbatim>\<open>insert_database_query\<close>,
  \<^verbatim>\<open>dump_users_query\<close>, \<^verbatim>\<open>dump_databases_query\<close>, \<^verbatim>\<open>null_token\<close>, the
  table definitions) are constants of \<^verbatim>\<open>mysql_auth.h\<close>, which is not part of this
  file. The model takes them by their names and arguments: the insert statements add one
  row with the values given, quoted values as text and the null token as
  \<^verbatim>\<open>NULL\<close>; the dump statements select every row with its columns in the order of
  the table; no uniqueness constraint merges rows; \<^verbatim>\<open>sqlite3_exec\<close> fails on a
  malformed statement only.
\<close>

record sqlite3 =
  users_table :: "row5 list"
  databases_table :: "string option list"

definition empty_db :: sqlite3 where
  "empty_db = \<lparr>users_table = [], databases_table = []\<rparr>"

text \<open>
  A value is spliced into the statement between single quotes with \<^verbatim>\<open>%s\<close>. With
  a single quote inside a value the text is not the intended statement any more: as a
  rule SQLite reports a syntax error and leaves the tables as they were, but the text
  may also happen to be another valid statement. What \<^verbatim>\<open>sqlite3_exec\<close> makes of
  such a text is the library's: \<open>exec_user_quoted\<close> is its effect on the handle for
  the insert of a user row, \<open>exec_database_quoted\<close> for the insert of a database name.
  Whatever it does, the functions of this file log an error at most and go on.
\<close>

definition has_quote :: "string \<Rightarrow> bool" where
  "has_quote s = (CHR 0x27 \<in> set s)"

record sqlite_lib =
  exec_user_quoted :: "row5 \<Rightarrow> sqlite3 \<Rightarrow> sqlite3"
  exec_database_quoted :: "string \<Rightarrow> sqlite3 \<Rightarrow> sqlite3"

text \<open>The library that answers every such text with a syntax error.\<close>

definition sqlite_syntax_error :: sqlite_lib where
  "sqlite_syntax_error =
     \<lparr>exec_user_quoted = (\<lambda>r h. h), exec_database_quoted = (\<lambda>d h. h)\<rparr>"

text \<open>
  \<^verbatim>\<open>add_mysql_user(handle, user, host, db, anydb, pw)\<close>. A \<^verbatim>\<open>NULL\<close> or empty
  \<open>db\<close> or \<open>pw\<close> is stored as \<^verbatim>\<open>NULL\<close>; one leading asterisk of the password
  is skipped. \<^verbatim>\<open>strlen(user)\<close> and \<^verbatim>\<open>strlen(host)\<close> dereference their
  arguments. A failure of \<^verbatim>\<open>sqlite3_exec\<close> is logged and the function returns as
  it does after a success.
\<close>

definition add_mysql_user ::
  "sqlite_lib \<Rightarrow> sqlite3 \<Rightarrow> string option \<Rightarrow> string option \<Rightarrow> string option \<Rightarrow> bool
     \<Rightarrow> string option \<Rightarrow> error + sqlite3" where
  "add_mysql_user lib handle usr host db anydb pw =
     (let dbstr = (case db of
                     None \<Rightarrow> None
                   | Some d \<Rightarrow> if d \<noteq> [] then Some d else None);
          pwstr = (case pw of
                     None \<Rightarrow> None
                   | Some [] \<Rightarrow> None
                   | Some (ch # rest) \<Rightarrow> if ch = CHR ''*'' then Some rest else Some (ch # rest))
      in case (usr, host) of
           (Some u, Some h) \<Rightarrow>
             (let new_row = \<lparr>c0 = Some u, c1 = Some h, c2 = dbstr,
                             c3 = Some (if anydb then ''1'' else ''0''), c4 = pwstr\<rparr>
              in if has_quote u \<or> has_quote h
                      \<or> has_quote (case dbstr of None \<Rightarrow> [] | Some d \<Rightarrow> d)
                      \<or> has_quote (case pwstr of None \<Rightarrow> [] | Some p \<Rightarrow> p)
                 then Inr (exec_user_quoted lib new_row handle)
                 else Inr (handle\<lparr>users_table := users_table handle @ [new_row]\<rparr>))
         | _ \<Rightarrow> Inl NullDereference)"

text \<open>
  \<^verbatim>\<open>add_database(handle, db)\<close>; \<^verbatim>\<open>strlen(db)\<close> dereferences the name, and a
  failure of \<^verbatim>\<open>sqlite3_exec\<close> is logged only.
\<close>

definition add_database :: "sqlite_lib \<Rightarrow> sqlite3 \<Rightarrow> string option \<Rightarrow> error + sqlite3" where
  "add_database lib handle db =
     (case db of
        None \<Rightarrow> Inl NullDereference
      | Some d \<Rightarrow>
          if has_quote d then Inr (exec_database_quoted lib d handle)
          else Inr (handle\<lparr>databases_table := databases_table handle @ [Some d]\<rparr>))"

text \<open>
  \<^verbatim>\<open>dump_user_cb\<close>, the callback of the users dump, with the destination handle as
  its data: the flag it passes on is \<^verbatim>\<open>row[3] && strcmp(row[3], "1")\<close>, true when
  the column is present and differs from \<^verbatim>\<open>"1"\<close>.
\<close>

definition dump_user_cb :: "sqlite_lib \<Rightarrow> sqlite3 \<Rightarrow> row5 \<Rightarrow> error + sqlite3" where
  "dump_user_cb lib handle row =
     add_mysql_user lib handle (c0 row) (c1 row) (c2 row)
       (case c3 row of None \<Rightarrow> False | Some a \<Rightarrow> a \<noteq> ''1'') (c4 row)"

definition dump_database_cb :: "sqlite_lib \<Rightarrow> sqlite3 \<Rightarrow> string option \<Rightarrow> error + sqlite3" where
  "dump_database_cb lib handle row = add_database lib handle row"

text \<open>\<^verbatim>\<open>sqlite3_exec\<close> of a dump: the callback runs on every row in turn.\<close>

fun exec_dump :: "('r \<Rightarrow> sqlite3 \<Rightarrow> error + sqlite3) \<Rightarrow> 'r list \<Rightarrow> sqlite3 \<Rightarrow> error + sqlite3" where
  "exec_dump cb [] dest = Inr dest"
| "exec_dump cb (r # rs) dest =
     (case cb r dest of Inl e \<Rightarrow> Inl e | Inr dest1 \<Rightarrow> exec_dump cb rs dest1)"

text \<open>
  \<^verbatim>\<open>transfer_table_contents(src, dest)\<close>: the users of \<open>src\<close> are added to \<open>dest\<close>,
  then its databases. The result is the return value with the destination.
\<close>

definition transfer_table_contents :: "sqlite_lib \<Rightarrow> sqlite3 \<Rightarrow> sqlite3 \<Rightarrow> error + (bool \<times> sqlite3)" where
  "transfer_table_contents lib src dest =
     (case exec_dump (\<lambda>r h. dump_user_cb lib h r) (users_table src) dest of
        Inl e \<Rightarrow> Inl e
      | Inr dest1 \<Rightarrow>
          (case exec_dump (\<lambda>r h. dump_database_cb lib h r) (databases_table src) dest1 of
             Inl e \<Rightarrow> Inl e
           | Inr dest2 \<Rightarrow> Inr (True, dest2)))"

text \<open>
  The persisted databases by file name. \<^verbatim>\<open>sqlite3_open_v2\<close> opens the file and,
  with the creation flag of \<^verbatim>\<open>db_flags\<close>, creates it when it is missing; \<open>open_ok\<close> says
  whether it succeeded. \<^verbatim>\<open>dbusers_load(dest, filename)\<close> returns false when it did
  not; \<^verbatim>\<open>dbusers_save(src, filename)\<close> returns -1 from a function of type
  \<^verbatim>\<open>bool\<close>, which is true.
\<close>

type_synonym files = "string \<Rightarrow> sqlite3 option"

definition open_file :: "files \<Rightarrow> string \<Rightarrow> sqlite3" where
  "open_file fs filename = (case fs filename of None \<Rightarrow> empty_db | Some d \<Rightarrow> d)"

definition dbusers_load ::
  "sqlite_lib \<Rightarrow> bool \<Rightarrow> files \<Rightarrow> sqlite3 \<Rightarrow> string \<Rightarrow> error + (bool \<times> sqlite3 \<times> files)" where
  "dbusers_load lib open_ok fs dest filename =
     (if \<not> open_ok then Inr (False, dest, fs)
      else
        (case transfer_table_contents lib (open_file fs filename) dest of
           Inl e \<Rightarrow> Inl e
         | Inr (rval, dest1) \<Rightarrow> Inr (rval, dest1, fs(filename := Some (open_file fs filename)))))"

definition dbusers_save ::
  "sqlite_lib \<Rightarrow> bool \<Rightarrow> files \<Rightarrow> sqlite3 \<Rightarrow> string \<Rightarrow> error + (bool \<times> files)" where
  "dbusers_save lib open_ok fs src filename =
     (if \<not> open_ok then Inr (True, fs)
      else
        (case transfer_table_contents lib src (open_file fs filename) of
           Inl e \<Rightarrow> Inl e
         | Inr (rval, dest1) \<Rightarrow> Inr (rval, fs(filename := Some dest1))))"

text \<open>
  A representable catalog: every user row has a user and a host, its database and its
  password are \<^verbatim>\<open>NULL\<close> or a text that is not empty, the password does not start
  with an asterisk, the flag is the text 0 or 1, every database name is present, and no
  text holds a single quote.
\<close>

definition representable_text :: "string option \<Rightarrow> bool" where
  "representable_text v = (case v of None \<Rightarrow> True | Some s \<Rightarrow> s \<noteq> [] \<and> \<not> has_quote s)"

definition representable_row :: "row5 \<Rightarrow> bool" where
  "representable_row r =
     ((case c0 r of None \<Rightarrow> False | Some u \<Rightarrow> \<not> has_quote u) \<and>
      (case c1 r of None \<Rightarrow> False | Some h \<Rightarrow> \<not> has_quote h) \<and>
      representable_text (c2 r) \<and>
      (c3 r = Some ''0'' \<or> c3 r = Some ''1'') \<and>
      representable_text (c4 r) \<and>
      (case c4 r of None \<Rightarrow> True | Some p \<Rightarrow> take 1 p \<noteq> ''*''))"

definition representable :: "sqlite3 \<Rightarrow> bool" where
  "representable cat =
     (list_all representable_row (users_table cat) \<and>
      list_all (\<lambda>d. case d of None \<Rightarrow> False | Some s \<Rightarrow> \<not> has_quote s) (databases_table cat))"

text \<open>The row one pass of \<^verbatim>\<open>dump_user_cb\<close> writes for a row: its flag is the other one.\<close>

definition flip_anydb :: "row5 \<Rightarrow> row5" where
  "flip_anydb r = r\<lparr>c3 := Some (if c3 r = Some ''1'' then ''0'' else ''1'')\<rparr>"

text \<open>
  A catalog of two users and two databases; the file system without any file; the
  database file \<open>users.db\<close> after the catalog has been saved to it once and twice,
  and what a load from the latter puts into an empty database.
\<close>

definition example_catalog :: sqlite3 where
  "example_catalog =
     \<lparr>users_table =
        [\<lparr>c0 = Some ''alice'', c1 = Some ''%'', c2 = None, c3 = Some ''1'',
          c4 = Some ''2470C0C06DEE42FD1618BB99005ADCA2EC9D1E19''\<rparr>,
         \<lparr>c0 = Some ''bob'', c1 = Some ''10.0.0.%'', c2 = Some ''sales'', c3 = Some ''0'',
          c4 = None\<rparr>],
      databases_table = [Some ''sales'', Some ''test'']\<rparr>"

definition no_files :: files where
  "no_files filename = None"

definition saved_once :: sqlite3 where
  "saved_once =
     \<lparr>users_table = map flip_anydb (users_table example_catalog),
      databases_table = databases_table example_catalog\<rparr>"

definition saved_twice :: sqlite3 where
  "saved_twice =
     \<lparr>users_table = map flip_anydb (users_table example_catalog) @
                     map flip_anydb (users_table example_catalog),
      databases_table = databases_table example_catalog @ databases_table example_catalog\<rparr>"

definition loaded_after_two_saves :: sqlite3 where
  "loaded_after_two_saves =
     \<lparr>users_table = users_table example_catalog @ users_table example_catalog,
      databases_table = databases_table example_catalog @ databases_table example_catalog\<rparr>"

subsection \<open>Loading the users from the backends\<close>

text \<open>
  What one backend of the service does when the loader contacts it; the calls into the
  MySQL client library and the server object are outside this file.
  \<^item> \<open>con_init_ok\<close>: \<^verbatim>\<open>gw_mysql_init\<close> returned a handle;
  \<^item> \<open>connect_ok\<close>: \<^verbatim>\<open>mxs_mysql_real_connect\<close> succeeded;
  \<^item> \<open>server_string\<close>: \<^verbatim>\<open>server->server->server_string\<close>, perhaps \<^verbatim>\<open>NULL\<close>;
  \<^item> \<open>server_info\<close>: what \<^verbatim>\<open>mysql_get_server_info\<close> returns;
  \<^item> \<open>set_version_ok\<close>: \<^verbatim>\<open>server_set_version_string\<close> succeeded;
  \<^item> \<open>query_malloc_ok\<close>: the allocation inside \<^verbatim>\<open>get_new_users_query\<close> succeeded;
  \<^item> \<open>users_result\<close>: the rows of the grant query, by its text; \<open>None\<close> when
    \<^verbatim>\<open>mysql_query\<close> fails or \<^verbatim>\<open>mysql_store_result\<close> returns \<^verbatim>\<open>NULL\<close>;
  \<^item> \<open>databases_result\<close>: the same for \<^verbatim>\<open>SHOW DATABASES\<close>, one column a row.
\<close>

record backend =
  con_init_ok :: bool
  connect_ok :: bool
  server_string :: "string option"
  server_info :: string
  set_version_ok :: bool
  query_malloc_ok :: bool
  users_result :: "string \<Rightarrow> row5 list option"
  databases_result :: "string option list option"

text \<open>
  The fields of \<^verbatim>\<open>SERVICE\<close> the loader reads or writes. \<open>service_user\<close> is what
  \<^verbatim>\<open>serviceGetUser\<close> yields (\<open>None\<close> when it returns 0), \<open>decrypt_ok\<close> whether
  \<^verbatim>\<open>decrypt_password\<close> returned a string, \<open>dbref\<close> the list of server references.
\<close>

record SERVICE =
  service_user :: "(string \<times> string) option"
  decrypt_ok :: bool
  dbref :: "backend list"
  svc_do_shutdown :: bool
  users_from_all :: bool
  enable_root :: bool
  strip_db_esc :: bool
  localhost_match_wildcard_host :: int

text \<open>
  \<^verbatim>\<open>SERVICE_PARAM_UNINIT\<close> is a constant of \<^verbatim>\<open>service.h\<close>, which is not part of
  this file; the model takes the value as the argument \<open>uninit\<close> of
  \<^verbatim>\<open>get_users_from_server\<close>.
\<close>

text \<open>
  \<^verbatim>\<open>USERS\<close>: the hashtable from keys to authentication data, as an association
  list, and the counters of \<^verbatim>\<open>stats\<close>.
\<close>

record USERS =
  data :: "(MYSQL_USER_HOST \<times> string) list"
  n_adds :: int
  n_entries :: int
  n_fetches :: int

definition empty_users :: USERS where
  "empty_users = \<lparr>data = [], n_adds = 0, n_entries = 0, n_fetches = 0\<rparr>"

text \<open>
  The memory the loader works on. The users tables live in a store indexed by address: a
  cell holds a table or, once freed, nothing, and an allocation takes the next address.
  \<open>listener_users\<close> is the pointer \<^verbatim>\<open>listener->users\<close>, \<open>auth_handle\<close> the SQLite
  handle of the listener's authenticator instance and \<open>service\<close> the listener's service.
\<close>

record world =
  heap :: "USERS option list"
  listener_users :: "nat option"
  auth_handle :: sqlite3
  service :: SERVICE

definition users_at :: "world \<Rightarrow> nat \<Rightarrow> USERS option" where
  "users_at w a = (if a < length (heap w) then heap w ! a else None)"

text \<open>
  \<^verbatim>\<open>mysql_users_alloc()\<close>: the two arguments say whether \<^verbatim>\<open>MXS_CALLOC\<close> and
  \<^verbatim>\<open>hashtable_alloc\<close> succeeded; if either fails nothing stays allocated and the
  result is \<^verbatim>\<open>NULL\<close>.
\<close>

definition mysql_users_alloc :: "bool \<Rightarrow> bool \<Rightarrow> world \<Rightarrow> nat option \<times> world" where
  "mysql_users_alloc calloc_ok hashtable_ok w =
     (if \<not> calloc_ok then (None, w)
      else if \<not> hashtable_ok then (None, w)
      else (Some (length (heap w)), w\<lparr>heap := heap w @ [Some empty_users]\<rparr>))"

text \<open>\<^verbatim>\<open>users_free(users)\<close>, of \<^verbatim>\<open>users.c\<close>, releases the table.\<close>

definition users_free :: "nat \<Rightarrow> world \<Rightarrow> world" where
  "users_free a w = w\<lparr>heap := (heap w)[a := None]\<rparr>"

text \<open>
  The loop over the rows of the grant query in \<^verbatim>\<open>get_users_from_server\<close>: the
  SQLite handle, the count \<^verbatim>\<open>users\<close> and the flag \<^verbatim>\<open>anon_user\<close> are threaded
  through. \<open>strip\<close> stands for \<^verbatim>\<open>strip_escape_chars\<close>, which is not part of this
  file, applied to the column \<^verbatim>\<open>row[2]\<close> in place.
\<close>

fun load_rows ::
  "sqlite_lib \<Rightarrow> (string option \<Rightarrow> string option) \<Rightarrow> bool \<Rightarrow> row5 list \<Rightarrow> sqlite3 \<times> int \<times> bool
     \<Rightarrow> error + (sqlite3 \<times> int \<times> bool)" where
  "load_rows lib strip esc [] acc = Inr acc"
| "load_rows lib strip esc (row # rows) (handle, users, anon_user) =
     (let db = (if esc then strip (c2 row) else c2 row)
      in case add_mysql_user lib handle (c0 row) (c1 row) db
                (case c3 row of None \<Rightarrow> False | Some y \<Rightarrow> y = ''Y'') (c4 row) of
           Inl e \<Rightarrow> Inl e
         | Inr handle1 \<Rightarrow>
             load_rows lib strip esc rows
               (handle1, users + 1,
                (case c0 row of None \<Rightarrow> anon_user | Some u \<Rightarrow> if u = [] then True else anon_user)))"

text \<open>
  \<^verbatim>\<open>get_users_from_server(con, server, service, listener)\<close>. The result is the
  number of users, the server with the version string it may have stored, and the world.
\<close>

definition get_users_from_server ::
  "sqlite_lib \<Rightarrow> int \<Rightarrow> (string option \<Rightarrow> string option) \<Rightarrow> backend \<Rightarrow> world \<Rightarrow> error + (int \<times> backend \<times> world)" where
  "get_users_from_server lib uninit strip server w =
     (if server_string server = None \<and> \<not> set_version_ok server then Inr (-1, server, w)
      else
        (let version = (case server_string server of None \<Rightarrow> server_info server | Some v \<Rightarrow> v);
             server1 = server\<lparr>server_string := Some version\<rparr>;
             svc = service w;
             query = get_new_users_query (query_malloc_ok server) version (enable_root svc);
             rows = (case query of
                       None \<Rightarrow> []
                     | Some q \<Rightarrow> (case users_result server q of None \<Rightarrow> [] | Some rs \<Rightarrow> rs))
         in case load_rows lib strip (strip_db_esc svc) rows (auth_handle w, 0, False) of
              Inl e \<Rightarrow> Inl e
            | Inr (handle1, users, anon_user) \<Rightarrow>
                (let svc1 = (if localhost_match_wildcard_host svc = uninit
                             then svc\<lparr>localhost_match_wildcard_host := (if anon_user then 0 else 1)\<rparr>
                             else svc)
                 in case exec_dump (\<lambda>r h. add_database lib h r)
                           (case databases_result server of None \<Rightarrow> [] | Some ds \<Rightarrow> ds) handle1 of
                      Inl e \<Rightarrow> Inl e
                    | Inr handle2 \<Rightarrow>
                        Inr (users, server1, w\<lparr>auth_handle := handle2, service := svc1\<rparr>))))"

text \<open>
  A backend whose result sets hold every column the loader dereferences: a user and a
  host in each row of the grant query, a name in each row of the database query.
\<close>

definition columns_present :: "backend \<Rightarrow> bool" where
  "columns_present server =
     ((\<forall>q. case users_result server q of
              None \<Rightarrow> True
            | Some rs \<Rightarrow> list_all (\<lambda>r. c0 r \<noteq> None \<and> c1 r \<noteq> None) rs) \<and>
      (case databases_result server of
         None \<Rightarrow> True
       | Some ds \<Rightarrow> list_all (\<lambda>d. d \<noteq> None) ds))"

text \<open>
  The \<^verbatim>\<open>for\<close> loop of \<^verbatim>\<open>get_users\<close> over the server references still to visit,
  with \<^verbatim>\<open>total_users\<close> so far; the servers come back as the loop leaves them.
\<close>

fun get_users_loop ::
  "sqlite_lib \<Rightarrow> int \<Rightarrow> (string option \<Rightarrow> string option) \<Rightarrow> backend list \<Rightarrow> int \<Rightarrow> world
     \<Rightarrow> error + (int \<times> backend list \<times> world)" where
  "get_users_loop lib uninit strip [] total_users w = Inr (total_users, [], w)"
| "get_users_loop lib uninit strip (server # rest) total_users w =
     (if svc_do_shutdown (service w) then Inr (total_users, server # rest, w)
      else if \<not> con_init_ok server then
        (case get_users_loop lib uninit strip rest total_users w of
           Inl e \<Rightarrow> Inl e
         | Inr (t, rest1, w1) \<Rightarrow> Inr (t, server # rest1, w1))
      else if \<not> connect_ok server then
        (case get_users_loop lib uninit strip rest total_users w of
           Inl e \<Rightarrow> Inl e
         | Inr (t, rest1, w1) \<Rightarrow> Inr (t, server # rest1, w1))
      else
        (case get_users_from_server lib uninit strip server w of
           Inl e \<Rightarrow> Inl e
         | Inr (users, server1, w1) \<Rightarrow>
             (let total1 = (if users > total_users then users else total_users)
              in if \<not> users_from_all (service w1) then Inr (total1, server1 # rest, w1)
                 else
                   (case get_users_loop lib uninit strip rest total1 w1 of
                      Inl e \<Rightarrow> Inl e
                    | Inr (t, rest1, w2) \<Rightarrow> Inr (t, server1 # rest1, w2)))))"

text \<open>
  \<^verbatim>\<open>get_users(listener, users)\<close>; the table \<open>users\<close> it is given is not used by the
  function. The servers of the service are replaced by the servers as the loop left
  them.
\<close>

definition get_users ::
  "sqlite_lib \<Rightarrow> int \<Rightarrow> (string option \<Rightarrow> string option) \<Rightarrow> world \<Rightarrow> nat \<Rightarrow> error + (int \<times> world)" where
  "get_users lib uninit strip w users =
     (case service_user (service w) of
        None \<Rightarrow> Inr (-1, w)
      | Some (service_usr, service_passwd) \<Rightarrow>
          if \<not> decrypt_ok (service w) then Inr (-1, w)
          else
            (case get_users_loop lib uninit strip (dbref (service w)) (-1) w of
               Inl e \<Rightarrow> Inl e
             | Inr (total_users, servers, w1) \<Rightarrow>
                 Inr (total_users, w1\<lparr>service := (service w1)\<lparr>dbref := servers\<rparr>\<rparr>)))"

text \<open>
  \<^verbatim>\<open>replace_mysql_users(listener)\<close>; the spinlock around the load is not modelled,
  the function is followed as one thread runs it.
\<close>

definition replace_mysql_users ::
  "sqlite_lib \<Rightarrow> bool \<Rightarrow> bool \<Rightarrow> int \<Rightarrow> (string option \<Rightarrow> string option) \<Rightarrow> world \<Rightarrow> error + (int \<times> world)" where
  "replace_mysql_users lib calloc_ok hashtable_ok uninit strip w =
     (case mysql_users_alloc calloc_ok hashtable_ok w of
        (None, w0) \<Rightarrow> Inr (-1, w0)
      | (Some newusers, w0) \<Rightarrow>
          (case get_users lib uninit strip w0 newusers of
             Inl e \<Rightarrow> Inl e
           | Inr (i, w1) \<Rightarrow>
               if i \<le> 0 then
                 (case listener_users w1 of
                    Some old \<Rightarrow> Inr (i, users_free newusers w1)
                  | None \<Rightarrow> Inr (i, w1\<lparr>listener_users := Some newusers\<rparr>))
               else
                 (let oldusers = listener_users w1;
                      w2 = w1\<lparr>listener_users := Some newusers\<rparr>
                  in case oldusers of
                       Some old \<Rightarrow> Inr (i, users_free old w2)
                     | None \<Rightarrow> Inr (i, w2))))"

text \<open>
  Two worlds for the examples. In the first the listener holds a users table with one
  entry and the service has one backend, which accepts the connection and answers the
  grant query with no row and the database query with two names, the second with a
  single quote in it. In the second the
  listener holds no table and the service has no user to connect with.
\<close>

definition example_backend :: backend where
  "example_backend =
     \<lparr>con_init_ok = True, connect_ok = True, server_string = None,
      server_info = ''10.2.6-MariaDB'', set_version_ok = True, query_malloc_ok = True,
      users_result = (\<lambda>q. Some []),
      databases_result = Some [Some ''test'', Some (''o'' @ [CHR 0x27] @ ''brien'')]\<rparr>"

definition example_service :: SERVICE where
  "example_service =
     \<lparr>service_user = Some (''maxuser'', ''maxpwd''), decrypt_ok = True,
      dbref = [example_backend], svc_do_shutdown = False, users_from_all = False,
      enable_root = False, strip_db_esc = True, localhost_match_wildcard_host = -1\<rparr>"

definition example_table :: USERS where
  "example_table =
     \<lparr>data = [(\<lparr>user = Some ''bob'', ipv4 = s_addr_of 10 0 0 0, netmask = 24,
                  resource = Some ''sales'', hostname = []\<rparr>,
                ''2470C0C06DEE42FD1618BB99005ADCA2EC9D1E19'')],
      n_adds = 1, n_entries = 1, n_fetches = 0\<rparr>"

definition world_with_table :: world where
  "world_with_table =
     \<lparr>heap = [Some example_table], listener_users = Some 0, auth_handle = empty_db,
      service = example_service\<rparr>"

definition world_without_table :: world where
  "world_without_table =
     \<lparr>heap = [], listener_users = None, auth_handle = empty_db,
      service = example_service\<lparr>service_user := None\<rparr>\<rparr>"

subsection \<open>Password check\<close>

text \<open>
  Bytes are \<^verbatim>\<open>uint8_t\<close>; \<^verbatim>\<open>SHA_DIGEST_LENGTH\<close> is the length of a SHA1
  digest, 20 bytes.
\<close>

type_synonym byte = "8 word"

definition SHA_DIGEST_LENGTH :: nat where
  "SHA_DIGEST_LENGTH = 20"

text \<open>
  Modelled from the spec: the digest functions \<^verbatim>\<open>gw_sha1_str\<close> and
  \<^verbatim>\<open>gw_sha1_2_str\<close> that \<^verbatim>\<open>check_password\<close> calls are defined in another
  file of the repository, which is missing from the sources; the specification names
  what they compute SHA1. SHA1 is the hash function of FIPS 180: the message is padded
  with the byte 0x80, zeros and its length in bits as a 64-bit big-endian number to a
  multiple of 64 bytes; each block of 16 big-endian words is expanded to 80 words and
  run through 80 rounds, and the five words of the state make the 20 bytes of the
  digest.
\<close>

definition rotl32 :: "nat \<Rightarrow> 32 word \<Rightarrow> 32 word" where
  "rotl32 n x = push_bit n x OR drop_bit (32 - n) x"

fun be32_words :: "byte list \<Rightarrow> 32 word list" where
  "be32_words (b0 # b1 # b2 # b3 # rest) =
     (push_bit 24 (ucast b0) OR push_bit 16 (ucast b1) OR push_bit 8 (ucast b2) OR ucast b3)
       # be32_words rest"
| "be32_words rest = []"

definition bytes_of_32 :: "32 word \<Rightarrow> byte list" where
  "bytes_of_32 x = [ucast (drop_bit 24 x), ucast (drop_bit 16 x), ucast (drop_bit 8 x), ucast x]"

definition bytes_of_64 :: "64 word \<Rightarrow> byte list" where
  "bytes_of_64 x = bytes_of_32 (ucast (drop_bit 32 x)) @ bytes_of_32 (ucast x)"

definition sha1_pad :: "byte list \<Rightarrow> byte list" where
  "sha1_pad msg =
     msg @ [0x80] @ replicate ((119 - length msg mod 64) mod 64) 0 @
     bytes_of_64 (of_nat (8 * length msg))"

function sha1_blocks :: "byte list \<Rightarrow> byte list list" where
  "sha1_blocks bs = (if length bs < 64 then [] else take 64 bs # sha1_blocks (drop 64 bs))"
  by pat_completeness auto
termination
  by (relation "measure length") auto

function sha1_extend :: "32 word list \<Rightarrow> 32 word list" where
  "sha1_extend ws =
     (if length ws < 16 \<or> 80 \<le> length ws then ws
      else sha1_extend (rotl32 1 (ws ! 2 XOR ws ! 7 XOR ws ! 13 XOR ws ! 15) # ws))"
  by pat_completeness auto
termination
  by (relation "measure (\<lambda>ws. 80 - length ws)") auto

definition sha1_schedule :: "byte list \<Rightarrow> 32 word list" where
  "sha1_schedule block = rev (sha1_extend (rev (be32_words block)))"

type_synonym sha1_state = "32 word \<times> 32 word \<times> 32 word \<times> 32 word \<times> 32 word"

definition sha1_f :: "nat \<Rightarrow> 32 word \<Rightarrow> 32 word \<Rightarrow> 32 word \<Rightarrow> 32 word" where
  "sha1_f t b c d =
     (if t < 20 then (b AND c) OR (NOT b AND d)
      else if t < 40 then b XOR c XOR d
      else if t < 60 then (b AND c) OR (b AND d) OR (c AND d)
      else b XOR c XOR d)"

definition sha1_k :: "nat \<Rightarrow> 32 word" where
  "sha1_k t =
     (if t < 20 then 0x5A827999 else if t < 40 then 0x6ED9EBA1
      else if t < 60 then 0x8F1BBCDC else 0xCA62C1D6)"

fun sha1_rounds :: "nat \<Rightarrow> 32 word list \<Rightarrow> sha1_state \<Rightarrow> sha1_state" where
  "sha1_rounds t [] st = st"
| "sha1_rounds t (w # ws) (a, b, c, d, e) =
     sha1_rounds (t + 1) ws
       (rotl32 5 a + sha1_f t b c d + e + sha1_k t + w, a, rotl32 30 b, c, d)"

fun sha1_block :: "sha1_state \<Rightarrow> byte list \<Rightarrow> sha1_state" where
  "sha1_block (h0, h1, h2, h3, h4) block =
     (case sha1_rounds 0 (sha1_schedule block) (h0, h1, h2, h3, h4) of
        (a, b, c, d, e) \<Rightarrow> (h0 + a, h1 + b, h2 + c, h3 + d, h4 + e))"

definition sha1 :: "byte list \<Rightarrow> byte list" where
  "sha1 msg =
     (case foldl sha1_block (0x67452301, 0xEFCDAB89, 0x98BADCFE, 0x10325476, 0xC3D2E1F0)
             (sha1_blocks (sha1_pad msg)) of
        (h0, h1, h2, h3, h4) \<Rightarrow>
          bytes_of_32 h0 @ bytes_of_32 h1 @ bytes_of_32 h2 @ bytes_of_32 h3 @ bytes_of_32 h4)"

text \<open>
  Modelled from the spec: \<^verbatim>\<open>gw_sha1_str(in, len, out)\<close> is missing from the
  sources; the specification has \<open>candidate = SHA1(password_sha1)\<close>.
\<close>

definition gw_sha1_str :: "byte list \<Rightarrow> byte list" where
  "gw_sha1_str input = sha1 input"

text \<open>
  Modelled from the spec: \<^verbatim>\<open>gw_sha1_2_str(in1, len1, in2, len2, out)\<close> is missing
  from the sources; the specification has \<open>step1 = SHA1(scramble \<parallel> stored)\<close>, the digest
  of the concatenation.
\<close>

definition gw_sha1_2_str :: "byte list \<Rightarrow> byte list \<Rightarrow> byte list" where
  "gw_sha1_2_str in1 in2 = sha1 (in1 @ in2)"

text \<open>
  Modelled from the spec: \<^verbatim>\<open>gw_str_xor(out, in1, in2, len)\<close> is missing from the
  sources; the specification has \<open>password_sha1 = client_token XOR step1\<close>, byte by
  byte. The first list is \<open>in1\<close> with its \<open>len\<close> bytes, the second the bytes of
  \<open>in2\<close> at the same positions.
\<close>

definition gw_str_xor :: "byte list \<Rightarrow> byte list \<Rightarrow> byte list" where
  "gw_str_xor in1 in2 = map (\<lambda>(x, y). x XOR y) (zip in1 in2)"

text \<open>
  Modelled from the spec: \<^verbatim>\<open>gw_hex2bin(out, in, len)\<close> is missing from the sources;
  the specification has \<open>stored = unhex(stored_hex)\<close>. Two hexadecimal digits, capital
  or small, make one byte, the first digit the high half. The specification does not
  say what becomes of a text of odd length or with another character: the model has no
  result for it.
\<close>

definition hex_val :: "char \<Rightarrow> byte option" where
  "hex_val c =
     (let n = (of_char c :: nat)
      in if 48 \<le> n \<and> n \<le> 57 then Some (of_nat (n - 48))
         else if 65 \<le> n \<and> n \<le> 70 then Some (of_nat (n - 55))
         else if 97 \<le> n \<and> n \<le> 102 then Some (of_nat (n - 87))
         else None)"

fun gw_hex2bin :: "string \<Rightarrow> byte list option" where
  "gw_hex2bin [] = Some []"
| "gw_hex2bin [c] = None"
| "gw_hex2bin (hi # lo # cs) =
     (case (hex_val hi, hex_val lo, gw_hex2bin cs) of
        (Some h, Some l, Some bin) \<Rightarrow> Some ((push_bit 4 h OR l) # bin)
      | _ \<Rightarrow> None)"

text \<open>
  The hexadecimal text of a byte string with capital digits, as the password column of
  \<^verbatim>\<open>mysql.user\<close> holds the double digest.
\<close>

definition hex_digit :: "nat \<Rightarrow> char" where
  "hex_digit n = ''0123456789ABCDEF'' ! n"

definition hex_of_bytes :: "byte list \<Rightarrow> string" where
  "hex_of_bytes bs =
     concat (map (\<lambda>b. [hex_digit (unat (drop_bit 4 b)), hex_digit (unat (b AND 15))]) bs)"

text \<open>
  \<^verbatim>\<open>check_password(output, token, token_len, scramble, scramble_len,
  phase2_scramble)\<close>. \<open>token\<close> and \<open>scramble\<close> are the byte strings of the lengths
  passed with them. The result is the return value with the 20 bytes copied to
  \<^verbatim>\<open>phase2_scramble\<close>.
  \<^item> \<^verbatim>\<open>stored_token\<close> is 20 zero bytes; when \<open>output\<close> is not empty the decoded bytes
    are written over its front. More than 20 of them do not fit.
  \<^item> \<^verbatim>\<open>step2\<close> is declared without an initialiser and \<^verbatim>\<open>gw_str_xor\<close> writes its
    first \<^verbatim>\<open>token_len\<close> bytes only: the other bytes have the values the stack
    happens to hold, \<open>step2_uninit i\<close> at index \<open>i\<close>. A token of more than 20 bytes
    does not fit.
  \<^item> the return value is \<^verbatim>\<open>memcmp(final_step, stored_token, 20) == 0\<close>.
\<close>

definition check_password ::
  "(nat \<Rightarrow> byte) \<Rightarrow> string \<Rightarrow> byte list \<Rightarrow> byte list \<Rightarrow> error + (bool \<times> byte list)" where
  "check_password step2_uninit output token scramble =
     (case (if output \<noteq> [] then gw_hex2bin output else Some []) of
        None \<Rightarrow> Inl MalformedInput
      | Some bin \<Rightarrow>
          if length bin > SHA_DIGEST_LENGTH then Inl BufferOverflow
          else
            (let stored_token = bin @ replicate (SHA_DIGEST_LENGTH - length bin) 0;
                 step1 = gw_sha1_2_str scramble stored_token
             in if length token > SHA_DIGEST_LENGTH then Inl BufferOverflow
                else
                  (let step2 = gw_str_xor token step1 @
                               map step2_uninit [length token ..< SHA_DIGEST_LENGTH];
                       final_step = gw_sha1_str step2
                   in Inr (final_step = stored_token, step2))))"

text \<open>A password, a scramble and a stack of zero bytes for the examples.\<close>

definition zero_stack :: "nat \<Rightarrow> byte" where
  "zero_stack i = 0"

definition example_password :: "byte list" where
  "example_password = [0x73, 0x33, 0x63, 0x72, 0x65, 0x74]"

definition example_scramble :: "byte list" where
  "example_scramble = [1, 2, 3, 4, 5, 6, 7, 8, 9, 10, 11, 12, 13, 14, 15, 16, 17, 18, 19, 20]"

subsection \<open>Notions used in the proofs about normalisation\<close>

text \<open>
  Tokens joined by dots; the octet the loop writes for a token at index \<open>n\<close>; the
  octets the padding loop appends; a token as \<^verbatim>\<open>strtok_r\<close> returns them: not empty
  and without a dot.
\<close>

fun join_dot :: "string list \<Rightarrow> string" where
  "join_dot [] = []"
| "join_dot [t] = t"
| "join_dot (t # ts) = t @ ''.'' @ join_dot ts"

definition octet :: "int \<Rightarrow> string \<Rightarrow> string" where
  "octet n p = (if p \<noteq> ''%'' then p else if n = 3 then ''1'' else ''0'')"

fun octets :: "int \<Rightarrow> string list \<Rightarrow> string list" where
  "octets n [] = []"
| "octets n (p # ps) = octet n p # octets (n + 1) ps"

function pad_tokens :: "int \<Rightarrow> string list" where
  "pad_tokens n = (if n < 4 then (if n + 1 = 4 then ''1'' else ''0'') # pad_tokens (n + 1) else [])"
  by pat_completeness auto
termination
  by (relation "measure (\<lambda>b. nat (4 - b))") auto

definition wf_token :: "string \<Rightarrow> bool" where
  "wf_token t = (t \<noteq> [] \<and> CHR ''.'' \<notin> set t)"

declare merge_loop.simps [simp del] strtok_all.simps [simp del]
  pad_octets.simps [simp del] pad_tokens.simps [simp del]
  sha1_blocks.simps [simp del] sha1_extend.simps [simp del]

section \<open>Properties\<close>

subsection \<open>The grant query\<close>

lemma users_query_with_flag:
  "excludes_root (get_new_users_query True server_version True)"
  by (cases "strstr server_version ''5.7.''")
     (simp_all add: excludes_root_def get_new_users_query_def NEW_LOAD_DBUSERS_QUERY_def
        root_filter_clause_def MYSQL_PASSWORD_def MYSQL57_PASSWORD_def)

lemma users_query_without_flag:
  "\<not> excludes_root (get_new_users_query True server_version False)"
  by (cases "strstr server_version ''5.7.''")
     (simp_all add: excludes_root_def get_new_users_query_def NEW_LOAD_DBUSERS_QUERY_def
        root_filter_clause_def MYSQL_PASSWORD_def MYSQL57_PASSWORD_def)

text \<open>
  Claim C1. The claim asks that the query filters root out exactly when root is not
  enabled. \<^verbatim>\<open>get_users_from_server\<close> passes \<^verbatim>\<open>service->enable_root\<close> as
  \<^verbatim>\<open>include_root\<close>, and the function adds the clause when that flag is set: for
  every server version the clause is present exactly when root is enabled, the opposite
  of the claim, and with root disabled the query it builds has no filter at all.
\<close>

theorem users_query_root_filter_inverted:
  "excludes_root (get_new_users_query True server_version include_root) = include_root \<and>
   get_new_users_query True ''10.2.6-MariaDB'' False =
     Some (''SELECT u.user, u.host, d.db, u.select_priv, u.password'' @
           ''     FROM mysql.user AS u LEFT JOIN mysql.db AS d     ON (u.user = d.user AND u.host = d.host) '' @
           ''     UNION     SELECT u.user, u.host, t.db, u.select_priv, u.password'' @
           ''     FROM mysql.user AS u LEFT JOIN mysql.tables_priv AS t     ON (u.user = t.user AND u.host = t.host) '')"
proof -
  have "excludes_root (get_new_users_query True server_version include_root) = include_root"
    using users_query_with_flag users_query_without_flag by (cases include_root) simp_all
  moreover have "strstr ''10.2.6-MariaDB'' ''5.7.'' = None"
    by simp
  ultimately show ?thesis
    by (simp add: get_new_users_query_def NEW_LOAD_DBUSERS_QUERY_def MYSQL_PASSWORD_def)
qed

subsection \<open>Single-character wildcard host matching\<close>

lemma singlechar_wildcard_common_prefix:
  "host_matches_singlechar_wildcard us ws \<longleftrightarrow>
     (\<forall>i < min (length us) (length ws). ws ! i = CHR ''_'' \<or> us ! i = ws ! i)"
proof (induction us ws rule: host_matches_singlechar_wildcard.induct)
  case (1 u us w ws)
  then show ?case
    by (auto simp: less_Suc_eq_0_disj)
qed simp_all

text \<open>
  Claim C3. The claim asks that a pattern with an underscore matches a client address
  exactly when both strings have the same length and agree wherever the pattern is not
  an underscore, so that \<open>192.168.1._\<close> admits \<open>192.168.1.5\<close> and rejects
  \<open>192.168.1.42\<close>. The function stops comparing at the end of the shorter string and
  then answers true: the one-digit address matches, and so does the two-digit one, whose
  length differs from the pattern's.
\<close>

theorem singlechar_wildcard_ignores_length:
  "host_matches_singlechar_wildcard ''192.168.1.5'' ''192.168.1._'' = True \<and>
   host_matches_singlechar_wildcard ''192.168.1.42'' ''192.168.1._'' = True \<and>
   length ''192.168.1.42'' \<noteq> length ''192.168.1._''"
  by simp

subsection \<open>The user@host comparison\<close>

lemma strchr_None_iff: "strchr s c = None \<longleftrightarrow> c \<notin> set s"
  by (induction s) auto

lemma uh_cmpfun_keys:
  "user hu1 = Some u1 \<Longrightarrow> user hu2 = Some u2 \<Longrightarrow>
   uh_cmpfun dbmax regex (Some hu1) (Some hu2) =
     (if uh_host_matches u1 u2 hu1 hu2 then uh_resource_rule dbmax regex hu1 hu2 else Inr 1)"
  by (simp add: uh_cmpfun_def)

lemma numeric_host_matches:
  "uh_host_matches u u (client_key u c r1) (prefix_row u p k r2) \<longleftrightarrow> c = p \<and> k \<le> 32"
  by (auto simp: uh_host_matches_def client_key_def prefix_row_def)




text \<open>
  Claim C5. Let the host part of the comparison match. A client that names a database
  \<open>r1\<close> (not empty) is admitted by a row whose resource \<open>r2\<close> has no percent sign if and
  only if \<open>r2\<close> is empty or equal to \<open>r1\<close>, and is otherwise denied; a row whose
  resource is \<^verbatim>\<open>NULL\<close> denies it; a client whose resource is \<^verbatim>\<open>NULL\<close> or empty
  is admitted whatever the row's resource.
\<close>

theorem uh_cmpfun_database_rule:
  assumes "user hu1 = Some u1" and "user hu2 = Some u2"
    and "uh_host_matches u1 u2 hu1 hu2"
  shows "(resource hu1 = Some r1 \<and> r1 \<noteq> [] \<and> resource hu2 = Some r2 \<and> CHR ''%'' \<notin> set r2 \<longrightarrow>
            uh_cmpfun dbmax regex (Some hu1) (Some hu2) =
              Inr (if r2 = [] \<or> r2 = r1 then 0 else 1)) \<and>
         (resource hu1 = Some r1 \<and> r1 \<noteq> [] \<and> resource hu2 = None \<longrightarrow>
            uh_cmpfun dbmax regex (Some hu1) (Some hu2) = Inr 1) \<and>
         (resource hu1 = None \<or> resource hu1 = Some [] \<longrightarrow>
            uh_cmpfun dbmax regex (Some hu1) (Some hu2) = Inr 0)"
  using assms
  by (auto simp: uh_cmpfun_keys uh_resource_rule_def strchr_None_iff)

theorem uh_cmpfun_database_rule_witness:
  "uh_cmpfun 128 no_regex
     (Some (client_key ''bob'' (s_addr_of 10 0 0 0) (Some ''sales'')))
     (Some (prefix_row ''bob'' (s_addr_of 10 0 0 0) 24 (Some ''sales''))) = Inr 0 \<and>
   uh_cmpfun 128 no_regex
     (Some (client_key ''bob'' (s_addr_of 10 0 0 0) (Some ''marketing'')))
     (Some (prefix_row ''bob'' (s_addr_of 10 0 0 0) 24 (Some ''sales''))) = Inr 1 \<and>
   uh_cmpfun 128 no_regex
     (Some (client_key ''bob'' (s_addr_of 10 0 0 0) (Some ''sales'')))
     (Some (prefix_row ''bob'' (s_addr_of 10 0 0 0) 24 (Some []))) = Inr 0 \<and>
   uh_cmpfun 128 no_regex
     (Some (client_key ''bob'' (s_addr_of 10 0 0 0) (Some ''sales'')))
     (Some (prefix_row ''bob'' (s_addr_of 10 0 0 0) 24 None)) = Inr 1 \<and>
   uh_cmpfun 128 no_regex
     (Some (client_key ''bob'' (s_addr_of 10 0 0 0) None))
     (Some (prefix_row ''bob'' (s_addr_of 10 0 0 0) 24 None)) = Inr 0"
proof -
  have m: "uh_host_matches ''bob'' ''bob'' (client_key ''bob'' (s_addr_of 10 0 0 0) r1)
             (prefix_row ''bob'' (s_addr_of 10 0 0 0) 24 r2)" for r1 r2
    by (simp add: numeric_host_matches)
  have u1: "user (client_key ''bob'' (s_addr_of 10 0 0 0) r1) = Some ''bob''" for r1
    by (simp add: client_key_def)
  have u2: "user (prefix_row ''bob'' (s_addr_of 10 0 0 0) 24 r2) = Some ''bob''" for r2
    by (simp add: prefix_row_def)
  have r1: "resource (client_key ''bob'' (s_addr_of 10 0 0 0) r) = r" for r
    by (simp add: client_key_def)
  have r2: "resource (prefix_row ''bob'' (s_addr_of 10 0 0 0) 24 r) = r" for r
    by (simp add: prefix_row_def)
  show ?thesis
    using
      uh_cmpfun_database_rule [where dbmax = 128 and regex = no_regex
        and ?u1.0 = "''bob''" and ?u2.0 = "''bob''" and ?hu1.0 = "client_key ''bob'' (s_addr_of 10 0 0 0) (Some ''sales'')"
        and ?hu2.0 = "prefix_row ''bob'' (s_addr_of 10 0 0 0) 24 (Some ''sales'')"
        and ?r1.0 = "''sales''" and ?r2.0 = "''sales''"]
      uh_cmpfun_database_rule [where dbmax = 128 and regex = no_regex
        and ?u1.0 = "''bob''" and ?u2.0 = "''bob''" and ?hu1.0 = "client_key ''bob'' (s_addr_of 10 0 0 0) (Some ''marketing'')"
        and ?hu2.0 = "prefix_row ''bob'' (s_addr_of 10 0 0 0) 24 (Some ''sales'')"
        and ?r1.0 = "''marketing''" and ?r2.0 = "''sales''"]
      uh_cmpfun_database_rule [where dbmax = 128 and regex = no_regex
        and ?u1.0 = "''bob''" and ?u2.0 = "''bob''" and ?hu1.0 = "client_key ''bob'' (s_addr_of 10 0 0 0) (Some ''sales'')"
        and ?hu2.0 = "prefix_row ''bob'' (s_addr_of 10 0 0 0) 24 (Some [])"
        and ?r1.0 = "''sales''" and ?r2.0 = "[]"]
      uh_cmpfun_database_rule [where dbmax = 128 and regex = no_regex
        and ?u1.0 = "''bob''" and ?u2.0 = "''bob''" and ?hu1.0 = "client_key ''bob'' (s_addr_of 10 0 0 0) (Some ''sales'')"
        and ?hu2.0 = "prefix_row ''bob'' (s_addr_of 10 0 0 0) 24 None"
        and ?r1.0 = "''sales''" and ?r2.0 = "[]"]
      uh_cmpfun_database_rule [where dbmax = 128 and regex = no_regex
        and ?u1.0 = "''bob''" and ?u2.0 = "''bob''" and ?hu1.0 = "client_key ''bob'' (s_addr_of 10 0 0 0) None"
        and ?hu2.0 = "prefix_row ''bob'' (s_addr_of 10 0 0 0) 24 None"
        and ?r1.0 = "[]" and ?r2.0 = "[]"]
    by (simp add: u1 u2 m r1 r2)
qed

subsection \<open>Host name normalisation\<close>

lemma normalize_step_fields:
  "output_host (normalize_step p has_next st) =
     output_host st @ octet (bytes st) p @ (if has_next then ''.'' else [])"
  "bytes (normalize_step p has_next st) = bytes st + 1"
  "bits (normalize_step p has_next st) = bits st + (if p \<noteq> ''%'' then 8 else 0)"
  "found_wildcard (normalize_step p has_next st) \<longleftrightarrow> found_wildcard st \<or> p = ''%''"
  "useorig (normalize_step p has_next st) \<longleftrightarrow> useorig st \<or> (p \<noteq> ''%'' \<and> \<not> first_is_digit p)"
  by (auto simp: normalize_step_def octet_def Let_def)

lemma join_dot_Cons: "join_dot (t # ts) = t @ (if ts = [] then [] else ''.'' @ join_dot ts)"
  by (cases ts) simp_all

lemma octets_eq_Nil [simp]: "octets n ts = [] \<longleftrightarrow> ts = []"
  by (cases ts) simp_all

lemma normalize_tokens_output:
  "output_host (normalize_tokens ts st) = output_host st @ join_dot (octets (bytes st) ts)"
  by (induction ts arbitrary: st)
     (simp_all add: normalize_step_fields join_dot_Cons del: join_dot.simps(2,3))

lemma normalize_tokens_bytes: "bytes (normalize_tokens ts st) = bytes st + int (length ts)"
  by (induction ts arbitrary: st) (simp_all add: normalize_step_fields)

lemma normalize_tokens_bits:
  "bits (normalize_tokens ts st) = bits st + 8 * int (length (filter (\<lambda>p. p \<noteq> ''%'') ts))"
  by (induction ts arbitrary: st) (simp_all add: normalize_step_fields)

lemma normalize_tokens_found:
  "found_wildcard (normalize_tokens ts st) \<longleftrightarrow> found_wildcard st \<or> ''%'' \<in> set ts"
  by (induction ts arbitrary: st) (auto simp: normalize_step_fields)

lemma normalize_tokens_useorig:
  "useorig (normalize_tokens ts st) \<longleftrightarrow>
     useorig st \<or> (\<exists>p \<in> set ts. p \<noteq> ''%'' \<and> \<not> first_is_digit p)"
  by (induction ts arbitrary: st) (auto simp: normalize_step_fields)

lemma pad_octets_tokens: "pad_octets n = concat (map (\<lambda>t. CHR ''.'' # t) (pad_tokens n))"
proof (induction n rule: pad_octets.induct)
  case (1 n)
  then show ?case
    by (subst pad_octets.simps, subst pad_tokens.simps) simp
qed

lemma join_dot_concat: "join_dot (t # us) = t @ concat (map (\<lambda>u. CHR ''.'' # u) us)"
  by (induction us arbitrary: t) (simp_all add: join_dot_Cons del: join_dot.simps(2,3))

lemma join_dot_append:
  "ts \<noteq> [] \<Longrightarrow> join_dot (ts @ us) = join_dot ts @ concat (map (\<lambda>t. CHR ''.'' # t) us)"
  by (cases ts) (simp_all add: join_dot_concat del: join_dot.simps(2,3))

lemma strtok_all_nil [simp]: "strtok_all [] = []"
  by (simp add: strtok_all.simps strtok_r_def)

lemma strtok_all_token:
  assumes "wf_token t"
  shows "strtok_all t = [t]"
proof -
  from assms obtain c cs where t: "t = c # cs" and "c \<noteq> CHR ''.''"
    by (cases t) (auto simp: wf_token_def)
  from assms have nd: "\<forall>x \<in> set t. x \<noteq> CHR ''.''"
    by (auto simp: wf_token_def)
  have "dropWhile (\<lambda>c. c = CHR ''.'') t = t"
    using t \<open>c \<noteq> CHR ''.''\<close> by simp
  moreover have "takeWhile (\<lambda>c. c \<noteq> CHR ''.'') t = t"
    using nd by (simp add: takeWhile_eq_all_conv)
  moreover have "dropWhile (\<lambda>c. c \<noteq> CHR ''.'') t = []"
    using nd by (simp add: dropWhile_eq_Nil_conv)
  ultimately have "strtok_r t = Some (t, [])"
    using t by (simp add: strtok_r_def)
  then show ?thesis by (simp add: strtok_all.simps [of t])
qed

lemma strtok_all_cons:
  assumes "wf_token t"
  shows "strtok_all (t @ CHR ''.'' # rest) = t # strtok_all rest"
proof -
  from assms obtain c cs where t: "t = c # cs" and c: "c \<noteq> CHR ''.''"
    by (cases t) (auto simp: wf_token_def)
  from assms have nd: "\<forall>x \<in> set t. x \<noteq> CHR ''.''"
    by (auto simp: wf_token_def)
  have "dropWhile (\<lambda>c. c = CHR ''.'') (t @ ''.'' @ rest) = t @ ''.'' @ rest"
    using t c by simp
  moreover have "takeWhile (\<lambda>c. c \<noteq> CHR ''.'') (t @ ''.'' @ rest) = t"
    using nd by (simp add: takeWhile_append2)
  moreover have "dropWhile (\<lambda>c. c \<noteq> CHR ''.'') (t @ ''.'' @ rest) = ''.'' @ rest"
    using nd by (simp add: dropWhile_append2)
  ultimately have "strtok_r (t @ ''.'' @ rest) = Some (t, rest)"
    using t by (simp add: strtok_r_def)
  then show ?thesis by (simp add: strtok_all.simps [of "t @ CHR ''.'' # rest"])
qed

lemma strtok_all_join:
  "\<forall>t \<in> set ts. wf_token t \<Longrightarrow> strtok_all (join_dot ts) = ts"
proof (induction ts rule: join_dot.induct)
  case 1
  show ?case by simp
next
  case (2 t)
  then show ?case by (simp add: strtok_all_token)
next
  case (3 t u us)
  then show ?case by (simp add: strtok_all_cons)
qed

lemma strtok_all_wf: "\<forall>t \<in> set (strtok_all s). wf_token t \<and> set t \<subseteq> set s"
proof (induction s rule: strtok_all.induct)
  case (1 s)
  show ?case
  proof (cases "strtok_r s")
    case None
    then show ?thesis by (simp add: strtok_all.simps [of s])
  next
    case (Some a)
    obtain p lasts where a: "a = (p, lasts)" by (cases a)
    let ?s1 = "dropWhile (\<lambda>c. c = CHR ''.'') s"
    from Some a have s1: "?s1 \<noteq> []" and p: "p = takeWhile (\<lambda>c. c \<noteq> CHR ''.'') ?s1"
      and l: "lasts = drop 1 (dropWhile (\<lambda>c. c \<noteq> CHR ''.'') ?s1)"
      by (auto simp: strtok_r_def Let_def split: if_splits)
    from s1 have "hd ?s1 \<noteq> CHR ''.''"
      using hd_dropWhile [of "\<lambda>c. c = CHR ''.''" s] by simp
    with s1 p have "p \<noteq> []"
      by (cases ?s1) auto
    moreover have "CHR ''.'' \<notin> set p"
      using p set_takeWhileD by fastforce
    moreover have "set p \<subseteq> set s"
      using p set_takeWhileD set_dropWhileD by fastforce
    moreover have "set lasts \<subseteq> set s"
    proof -
      have "set lasts \<subseteq> set (dropWhile (\<lambda>c. c \<noteq> CHR ''.'') ?s1)"
        unfolding l by (rule set_drop_subset)
      also have "\<dots> \<subseteq> set ?s1"
        by (auto dest: set_dropWhileD)
      also have "\<dots> \<subseteq> set s"
        by (auto dest: set_dropWhileD)
      finally show ?thesis .
    qed
    moreover have "\<forall>t \<in> set (strtok_all lasts). wf_token t \<and> set t \<subseteq> set lasts"
      using "1.IH" Some a by simp
    ultimately show ?thesis
      using Some a by (auto simp: wf_token_def strtok_all.simps [of s])
  qed
qed


lemma octets_members:
  "u \<in> set (octets n ts) \<Longrightarrow> u = ''0'' \<or> u = ''1'' \<or> (u \<in> set ts \<and> u \<noteq> ''%'')"
  by (induction ts arbitrary: n) (auto simp: octet_def split: if_splits)

lemma pad_tokens_members: "u \<in> set (pad_tokens n) \<Longrightarrow> u = ''0'' \<or> u = ''1''"
proof (induction n rule: pad_tokens.induct)
  case (1 n)
  show ?case
  proof (cases "n < 4")
    case True
    then have "pad_tokens n = (if n + 1 = 4 then ''1'' else ''0'') # pad_tokens (n + 1)"
      by (subst pad_tokens.simps) simp
    with "1.prems"
    have "u = (if n + 1 = 4 then ''1'' else ''0'') \<or> u \<in> set (pad_tokens (n + 1))"
      by simp
    then show ?thesis
    proof
      assume "u = (if n + 1 = 4 then ''1'' else ''0'')"
      then show ?thesis by (simp split: if_splits)
    next
      assume "u \<in> set (pad_tokens (n + 1))"
      then show ?thesis by (rule "1.IH" [OF True])
    qed
  next
    case False
    then have "pad_tokens n = []"
      by (subst pad_tokens.simps) simp
    with "1.prems" show ?thesis by simp
  qed
qed

lemma octets_no_wildcard: "''%'' \<notin> set us \<Longrightarrow> octets n us = us"
  by (induction us arbitrary: n) (auto simp: octet_def)

lemma set_join_dot: "c \<in> set (join_dot us) \<Longrightarrow> c = CHR ''.'' \<or> (\<exists>u \<in> set us. c \<in> set u)"
  by (induction us rule: join_dot.induct) auto

lemma normalize_hostname_unfold:
  "normalize_hostname True h =
     (let st = normalize_tokens (strtok_all (merge_netmask h)) init_state
      in if useorig st then (32, h)
         else if found_wildcard st then (bits st, output_host st @ pad_octets (bytes st))
         else (32, output_host st))"
  by (simp add: normalize_hostname_def Let_def)

lemma normalize_digit_tokens:
  assumes us: "\<forall>u \<in> set us. wf_token u \<and> first_is_digit u \<and> CHR ''/'' \<notin> set u"
  shows "normalize_hostname True (join_dot us) = (32, join_dot us)"
proof -
  have "CHR ''/'' \<notin> set (join_dot us)"
    using us by (auto dest: set_join_dot)
  then have m: "merge_netmask (join_dot us) = join_dot us"
    by (simp add: merge_netmask_def strchr_None_iff [THEN iffD2])
  have toks: "strtok_all (join_dot us) = us"
    using us by (simp add: strtok_all_join)
  have nw: "''%'' \<notin> set us"
    using us by (auto simp: first_is_digit_def isdigit_def)
  let ?st = "normalize_tokens us init_state"
  have "\<not> useorig ?st"
    using us by (auto simp: normalize_tokens_useorig init_state_def)
  moreover have "\<not> found_wildcard ?st"
    using nw by (simp add: normalize_tokens_found init_state_def)
  moreover have "output_host ?st = join_dot us"
    using nw by (simp add: normalize_tokens_output init_state_def octets_no_wildcard)
  ultimately show ?thesis
    by (simp add: normalize_hostname_unfold m toks Let_def)
qed

lemma merge_netmask_no_slash: "CHR ''/'' \<notin> set h \<Longrightarrow> merge_netmask h = h"
  by (simp add: merge_netmask_def strchr_None_iff [THEN iffD2])

text \<open>
  Claim C8 as stated fails: the class C pattern \<open>10.0.0.%\<close> normalises to the
  address \<open>10.0.0.1\<close> with netmask 24, and that output normalises to itself with
  netmask 32.
\<close>

theorem normalize_hostname_netmask_counterexample:
  "normalize_hostname True ''10.0.0.%'' = (24, ''10.0.0.1'') \<and>
   normalize_hostname True ''10.0.0.1'' = (32, ''10.0.0.1'') \<and>
   fst (normalize_hostname True (snd (normalize_hostname True ''10.0.0.%''))) \<noteq>
     fst (normalize_hostname True ''10.0.0.%'')"
proof -
  have "normalize_hostname True ''10.0.0.%'' = (24, ''10.0.0.1'')"
    by code_simp
  moreover have "normalize_hostname True ''10.0.0.1'' = (32, ''10.0.0.1'')"
    by code_simp
  ultimately show ?thesis by simp
qed

lemma normalize_hostname_again:
  assumes "CHR ''/'' \<notin> set (merge_netmask h)"
  shows "normalize_hostname True (snd (normalize_hostname True h)) =
           (32, snd (normalize_hostname True h))"
proof -
  let ?ts = "strtok_all (merge_netmask h)"
  let ?st = "normalize_tokens ?ts init_state"
  show ?thesis
  proof (cases "useorig ?st")
    case True
    then have "normalize_hostname True h = (32, h)"
      by (simp add: normalize_hostname_unfold Let_def)
    then show ?thesis by simp
  next
    case False
    then have dig: "\<forall>p \<in> set ?ts. p = ''%'' \<or> first_is_digit p"
      by (auto simp: normalize_tokens_useorig init_state_def)
    have wf: "\<forall>p \<in> set ?ts. wf_token p \<and> CHR ''/'' \<notin> set p"
      using strtok_all_wf [of "merge_netmask h"] assms by blast
    define us where "us = octets 0 ?ts @ (if ''%'' \<in> set ?ts then pad_tokens (int (length ?ts)) else [])"
    have small: "wf_token u \<and> first_is_digit u \<and> CHR ''/'' \<notin> set u" if "u = ''0'' \<or> u = ''1''" for u
      using that by (auto simp: wf_token_def first_is_digit_def isdigit_def)
    have us: "\<forall>u \<in> set us. wf_token u \<and> first_is_digit u \<and> CHR ''/'' \<notin> set u"
    proof
      fix u assume "u \<in> set us"
      then consider "u \<in> set (octets 0 ?ts)" | "u \<in> set (pad_tokens (int (length ?ts)))"
        by (auto simp: us_def split: if_splits)
      then show "wf_token u \<and> first_is_digit u \<and> CHR ''/'' \<notin> set u"
      proof cases
        case 1
        then have "u = ''0'' \<or> u = ''1'' \<or> (u \<in> set ?ts \<and> u \<noteq> ''%'')"
          by (rule octets_members)
        then show ?thesis using small dig wf by blast
      next
        case 2
        then show ?thesis using small pad_tokens_members by blast
      qed
    qed
    have out: "snd (normalize_hostname True h) = join_dot us"
    proof (cases "''%'' \<in> set ?ts")
      case True
      then have ne: "octets 0 ?ts \<noteq> []" by auto
      from True False show ?thesis
        by (simp add: normalize_hostname_unfold Let_def normalize_tokens_found
            normalize_tokens_output normalize_tokens_bytes init_state_def us_def
            join_dot_append [OF ne] pad_octets_tokens)
    next
      case nowild: False
      with False show ?thesis
        by (simp add: normalize_hostname_unfold Let_def normalize_tokens_found
            normalize_tokens_output init_state_def us_def)
    qed
    show ?thesis
      unfolding out using us by (rule normalize_digit_tokens)
  qed
qed


text \<open>
  Claim C8, amended. For every host string that has no slash, or whose mask
  \<^verbatim>\<open>merge_netmask\<close> merges (so that no slash is left), normalising the output
  string of \<^verbatim>\<open>normalize_hostname\<close> again returns the same string with the netmask
  32. The second application therefore returns what the first returned if and only if
  the first netmask was 32 already; otherwise only the string is the same.
\<close>

theorem normalize_hostname_output_fixed:
  assumes "CHR ''/'' \<notin> set (merge_netmask h)"
  shows "normalize_hostname True (snd (normalize_hostname True h)) =
           (32, snd (normalize_hostname True h)) \<and>
         (normalize_hostname True (snd (normalize_hostname True h)) = normalize_hostname True h
            \<longleftrightarrow> fst (normalize_hostname True h) = 32)"
  using normalize_hostname_again [OF assms]
  by (cases "normalize_hostname True h") auto

theorem normalize_hostname_output_fixed_witness:
  "CHR ''/'' \<notin> set (merge_netmask ''10.1.0.0/255.255.0.0'') \<and>
   normalize_hostname True ''10.1.0.0/255.255.0.0'' = (16, ''10.1.0.1'') \<and>
   normalize_hostname True ''10.1.0.1'' = (32, ''10.1.0.1'') \<and>
   normalize_hostname True ''10.1.0.1'' \<noteq> normalize_hostname True ''10.1.0.0/255.255.0.0'' \<and>
   CHR ''/'' \<notin> set (merge_netmask ''1.2.3.4.%'') \<and>
   normalize_hostname True ''1.2.3.4.%'' = (32, ''1.2.3.4.0'') \<and>
   normalize_hostname True ''1.2.3.4.0'' = normalize_hostname True ''1.2.3.4.%''"
proof -
  have h: "CHR ''/'' \<notin> set (merge_netmask ''10.1.0.0/255.255.0.0'')"
    by code_simp
  have v: "normalize_hostname True ''10.1.0.0/255.255.0.0'' = (16, ''10.1.0.1'')"
    by code_simp
  have h2: "CHR ''/'' \<notin> set (merge_netmask ''1.2.3.4.%'')"
    by code_simp
  have v2: "normalize_hostname True ''1.2.3.4.%'' = (32, ''1.2.3.4.0'')"
    by code_simp
  show ?thesis
    using h v h2 v2 normalize_hostname_output_fixed [OF h] normalize_hostname_output_fixed [OF h2]
    by simp
qed

subsection \<open>Saving and loading the user database\<close>

lemma flip_anydb_involution:
  "representable_row r \<Longrightarrow> representable_row (flip_anydb r) \<and> flip_anydb (flip_anydb r) = r"
  by (cases r) (auto simp: representable_row_def flip_anydb_def)

lemma dump_user_cb_row:
  assumes "representable_row r"
  shows "dump_user_cb lib h r = Inr (h\<lparr>users_table := users_table h @ [flip_anydb r]\<rparr>)"
proof -
  obtain u hst where u: "c0 r = Some u" "\<not> has_quote u" and h: "c1 r = Some hst" "\<not> has_quote hst"
    using assms by (auto simp: representable_row_def split: option.splits)
  have db: "(case c2 r of None \<Rightarrow> None | Some d \<Rightarrow> if d \<noteq> [] then Some d else None) = c2 r"
    and dbq: "\<not> has_quote (case c2 r of None \<Rightarrow> [] | Some d \<Rightarrow> d)"
    using assms
    by (auto simp: representable_row_def representable_text_def has_quote_def split: option.splits)
  have pw: "(case c4 r of None \<Rightarrow> None | Some [] \<Rightarrow> None
             | Some (ch # rest) \<Rightarrow> if ch = CHR ''*'' then Some rest else Some (ch # rest)) = c4 r"
    and pwq: "\<not> has_quote (case c4 r of None \<Rightarrow> [] | Some p \<Rightarrow> p)"
    using assms
    by (auto simp: representable_row_def representable_text_def has_quote_def
        split: option.splits list.splits)
  have flag: "c3 r = Some ''0'' \<or> c3 r = Some ''1''"
    using assms by (simp add: representable_row_def)
  have row: "\<lparr>c0 = Some u, c1 = Some hst, c2 = c2 r,
              c3 = Some (if (case c3 r of None \<Rightarrow> False | Some a \<Rightarrow> a \<noteq> ''1'') then ''1'' else ''0''),
              c4 = c4 r\<rparr> = flip_anydb r"
    using u h flag by (cases r) (auto simp: flip_anydb_def)
  show ?thesis
    unfolding dump_user_cb_def add_mysql_user_def Let_def db pw
    using u h dbq pwq row by simp
qed

lemma exec_dump_users:
  "list_all representable_row rs \<Longrightarrow>
   exec_dump (\<lambda>r h. dump_user_cb lib h r) rs dest =
     Inr (dest\<lparr>users_table := users_table dest @ map flip_anydb rs\<rparr>)"
  by (induction rs arbitrary: dest) (simp_all add: dump_user_cb_row)

lemma exec_dump_databases:
  "list_all (\<lambda>d. case d of None \<Rightarrow> False | Some s \<Rightarrow> \<not> has_quote s) ds \<Longrightarrow>
   exec_dump (\<lambda>r h. dump_database_cb lib h r) ds dest =
     Inr (dest\<lparr>databases_table := databases_table dest @ ds\<rparr>)"
  by (induction ds arbitrary: dest)
     (auto simp: dump_database_cb_def add_database_def split: option.splits)

lemma transfer_representable:
  assumes "representable src"
  shows "transfer_table_contents lib src dest =
           Inr (True, dest\<lparr>users_table := users_table dest @ map flip_anydb (users_table src),
                           databases_table := databases_table dest @ databases_table src\<rparr>)"
  using assms
  by (simp add: transfer_table_contents_def representable_def exec_dump_users exec_dump_databases)

lemma flipped_representable:
  assumes "representable cat"
  shows "representable (empty_db\<lparr>users_table := map flip_anydb (users_table cat),
                                 databases_table := databases_table cat\<rparr>)"
  using assms
  by (auto simp: representable_def list_all_iff flip_anydb_involution)

lemma dbusers_save_file:
  assumes "representable cat" and "fs filename = None"
  shows "dbusers_save lib True fs cat filename =
           Inr (True, fs(filename := Some (empty_db\<lparr>users_table := map flip_anydb (users_table cat),
                                                     databases_table := databases_table cat\<rparr>)))"
  using assms
  by (simp add: dbusers_save_def open_file_def transfer_representable empty_db_def)

text \<open>
  With a file that does not exist yet and an empty destination the round trip is the
  identity on representable catalogs: the two passes through \<^verbatim>\<open>dump_user_cb\<close>
  flip every flag twice.
\<close>

lemma dbusers_save_load_fresh:
  assumes "representable cat" and "fs filename = None"
  shows "\<exists>fs1 fs2. dbusers_save lib True fs cat filename = Inr (True, fs1) \<and>
                   dbusers_load lib True fs1 empty_db filename = Inr (True, cat, fs2)"
proof -
  let ?file = "empty_db\<lparr>users_table := map flip_anydb (users_table cat),
                        databases_table := databases_table cat\<rparr>"
  let ?fs1 = "fs(filename := Some ?file)"
  have save: "dbusers_save lib True fs cat filename = Inr (True, ?fs1)"
    using assms by (rule dbusers_save_file)
  have twice: "map flip_anydb (map flip_anydb (users_table cat)) = users_table cat"
    using assms(1)
    by (simp add: representable_def list_all_iff flip_anydb_involution map_idI)
  have "transfer_table_contents lib ?file empty_db = Inr (True, cat)"
    using flipped_representable [OF assms(1)] twice
    by (simp add: transfer_representable empty_db_def)
  then have "dbusers_load lib True ?fs1 empty_db filename = Inr (True, cat, ?fs1(filename := Some ?file))"
    by (simp add: dbusers_load_def open_file_def)
  with save show ?thesis by blast
qed

lemma example_catalog_representable: "representable example_catalog"
  by (simp add: representable_def representable_row_def representable_text_def
      has_quote_def example_catalog_def)

lemma saved_twice_representable: "representable saved_twice"
  using example_catalog_representable
  by (auto simp: saved_twice_def representable_def list_all_iff flip_anydb_involution)

lemma flip_example_rows:
  "map flip_anydb (map flip_anydb (users_table example_catalog)) = users_table example_catalog"
  using example_catalog_representable
  by (simp add: representable_def list_all_iff flip_anydb_involution map_idI)

text \<open>
  Claim C7. The claim asks that a representable catalog, saved with
  \<^verbatim>\<open>dbusers_save\<close> and loaded back with \<^verbatim>\<open>dbusers_load\<close>, comes back equal to
  the original. \<^verbatim>\<open>transfer_table_contents\<close> only inserts into its destination,
  under the comment that it replaces the data: the second save of the same catalog to
  the same file leaves every row in the file twice, and the load from that file into an
  empty database yields four user rows and four database names instead of two each.
  The file holds every flag the other way round, as \<^verbatim>\<open>dump_user_cb\<close> writes it.
\<close>

theorem dbusers_second_save_duplicates:
  "dbusers_save sqlite_syntax_error True no_files example_catalog ''users.db'' =
     Inr (True, no_files(''users.db'' := Some saved_once)) \<and>
   dbusers_save sqlite_syntax_error True (no_files(''users.db'' := Some saved_once))
       example_catalog ''users.db'' =
     Inr (True, no_files(''users.db'' := Some saved_twice)) \<and>
   dbusers_load sqlite_syntax_error True (no_files(''users.db'' := Some saved_twice))
       empty_db ''users.db'' =
     Inr (True, loaded_after_two_saves, no_files(''users.db'' := Some saved_twice)) \<and>
   length (users_table loaded_after_two_saves) = 4 \<and>
   length (users_table example_catalog) = 2 \<and>
   loaded_after_two_saves \<noteq> example_catalog \<and>
   map c3 (users_table example_catalog) = [Some ''1'', Some ''0''] \<and>
   map c3 (users_table saved_once) = [Some ''0'', Some ''1'']"
proof -
  note r = example_catalog_representable
  have s1: "dbusers_save sqlite_syntax_error True no_files example_catalog ''users.db'' =
     Inr (True, no_files(''users.db'' := Some saved_once))"
    by (simp add: dbusers_save_def open_file_def no_files_def transfer_representable [OF r]
        empty_db_def saved_once_def)
  have s2: "dbusers_save sqlite_syntax_error True (no_files(''users.db'' := Some saved_once))
       example_catalog ''users.db'' =
     Inr (True, no_files(''users.db'' := Some saved_twice))"
    by (simp add: dbusers_save_def open_file_def transfer_representable [OF r]
        saved_once_def saved_twice_def)
  have l: "dbusers_load sqlite_syntax_error True (no_files(''users.db'' := Some saved_twice))
       empty_db ''users.db'' =
     Inr (True, loaded_after_two_saves, no_files(''users.db'' := Some saved_twice))"
    by (simp add: dbusers_load_def open_file_def transfer_representable [OF saved_twice_representable]
        empty_db_def)
       (simp add: saved_twice_def loaded_after_two_saves_def flip_example_rows [unfolded map_map])
  have n: "length (users_table loaded_after_two_saves) = 4"
    "length (users_table example_catalog) = 2"
    by (simp_all add: loaded_after_two_saves_def example_catalog_def)
  have "users_table loaded_after_two_saves \<noteq> users_table example_catalog"
    using n by auto
  then have "loaded_after_two_saves \<noteq> example_catalog"
    by auto
  moreover have "map c3 (users_table example_catalog) = [Some ''1'', Some ''0'']"
    "map c3 (users_table saved_once) = [Some ''0'', Some ''1'']"
    by (simp_all add: saved_once_def example_catalog_def flip_anydb_def)
  ultimately show ?thesis
    using s1 s2 l n by simp
qed

subsection \<open>Replacing the users table\<close>

lemma get_users_from_server_frame:
  assumes "get_users_from_server lib uninit strip server w = Inr (n, server1, w1)"
  shows "heap w1 = heap w \<and> listener_users w1 = listener_users w"
  using assms
  by (auto simp: get_users_from_server_def Let_def split: if_splits sum.splits prod.splits)

lemma get_users_loop_frame:
  "get_users_loop lib uninit strip servers tot w = Inr (t, servers1, w1) \<Longrightarrow>
   heap w1 = heap w \<and> listener_users w1 = listener_users w"
proof (induction servers arbitrary: tot w t servers1 w1)
  case Nil
  then show ?case by simp
next
  case (Cons server rest)
  show ?case
  proof (cases "svc_do_shutdown (service w)")
    case True
    with Cons.prems show ?thesis by simp
  next
    case run: False
    show ?thesis
    proof (cases "con_init_ok server \<and> connect_ok server")
      case False
      with run Cons.prems obtain rest1 where
        "get_users_loop lib uninit strip rest tot w = Inr (t, rest1, w1)"
        by (auto split: sum.splits prod.splits if_splits)
      then show ?thesis by (rule Cons.IH)
    next
      case True
      with run Cons.prems obtain users server1 w0 where
        s: "get_users_from_server lib uninit strip server w = Inr (users, server1, w0)"
        by (auto split: sum.splits prod.splits)
      have f0: "heap w0 = heap w \<and> listener_users w0 = listener_users w"
        using s by (rule get_users_from_server_frame)
      show ?thesis
      proof (cases "users_from_all (service w0)")
        case False
        with run True s Cons.prems have "w1 = w0"
          by (simp add: Let_def)
        with f0 show ?thesis by simp
      next
        case all: True
        with run True s Cons.prems obtain rest1 where
          "get_users_loop lib uninit strip rest (if users > tot then users else tot) w0 =
             Inr (t, rest1, w1)"
          by (auto simp: Let_def split: sum.splits prod.splits)
        then have "heap w1 = heap w0 \<and> listener_users w1 = listener_users w0"
          by (rule Cons.IH)
        with f0 show ?thesis by simp
      qed
    qed
  qed
qed

lemma get_users_frame:
  assumes "get_users lib uninit strip w users = Inr (i, w1)"
  shows "heap w1 = heap w \<and> listener_users w1 = listener_users w"
proof (cases "service_user (service w) = None \<or> \<not> decrypt_ok (service w)")
  case True
  with assms have "w1 = w"
    by (auto simp: get_users_def split: option.splits prod.splits)
  then show ?thesis by simp
next
  case False
  with assms obtain servers w0 where
    l: "get_users_loop lib uninit strip (dbref (service w)) (-1) w = Inr (i, servers, w0)"
    and w1: "w1 = w0\<lparr>service := (service w0)\<lparr>dbref := servers\<rparr>\<rparr>"
    by (auto simp: get_users_def split: option.splits prod.splits sum.splits)
  from l have "heap w0 = heap w \<and> listener_users w0 = listener_users w"
    by (rule get_users_loop_frame)
  with w1 show ?thesis by simp
qed

text \<open>
  The loader returns a result whenever the result sets hold what the code dereferences:
  a user and a host in every row of the grant query and a name in every row of the
  database query.
\<close>

lemma add_mysql_user_returns:
  "usr \<noteq> None \<Longrightarrow> host \<noteq> None \<Longrightarrow> \<exists>h. add_mysql_user lib handle usr host db anydb pw = Inr h"
  by (auto simp: add_mysql_user_def Let_def)

lemma load_rows_returns:
  "list_all (\<lambda>r. c0 r \<noteq> None \<and> c1 r \<noteq> None) rows \<Longrightarrow>
   \<exists>res. load_rows lib strip esc rows acc = Inr res"
proof (induction rows arbitrary: acc)
  case Nil
  show ?case by (cases acc) auto
next
  case (Cons r rows)
  obtain handle users anon where acc: "acc = (handle, users, anon)"
    by (cases acc) auto
  from Cons.prems have p: "c0 r \<noteq> None" "c1 r \<noteq> None"
    by simp_all
  obtain h1 where
    "add_mysql_user lib handle (c0 r) (c1 r) (if esc then strip (c2 r) else c2 r)
       (case c3 r of None \<Rightarrow> False | Some y \<Rightarrow> y = ''Y'') (c4 r) = Inr h1"
    using add_mysql_user_returns [OF p, of lib handle "if esc then strip (c2 r) else c2 r"
        "case c3 r of None \<Rightarrow> False | Some y \<Rightarrow> y = ''Y''" "c4 r"]
    by blast
  moreover from Cons.prems have "list_all (\<lambda>r. c0 r \<noteq> None \<and> c1 r \<noteq> None) rows"
    by simp
  ultimately show ?case
    using Cons.IH by (simp add: acc Let_def)
qed

lemma add_databases_returns:
  "list_all (\<lambda>d. d \<noteq> None) ds \<Longrightarrow> \<exists>h. exec_dump (\<lambda>r h. add_database lib h r) ds handle = Inr h"
  by (induction ds arbitrary: handle) (auto simp: add_database_def)

lemma get_users_from_server_returns:
  assumes "columns_present server"
  shows "\<exists>res. get_users_from_server lib uninit strip server w = Inr res"
proof (cases "server_string server = None \<and> \<not> set_version_ok server")
  case True
  then show ?thesis by (simp add: get_users_from_server_def)
next
  case False
  let ?version = "case server_string server of None \<Rightarrow> server_info server | Some v \<Rightarrow> v"
  let ?rows = "case get_new_users_query (query_malloc_ok server) ?version (enable_root (service w)) of
                 None \<Rightarrow> []
               | Some q \<Rightarrow> (case users_result server q of None \<Rightarrow> [] | Some rs \<Rightarrow> rs)"
  let ?ds = "case databases_result server of None \<Rightarrow> [] | Some ds \<Rightarrow> ds"
  have "list_all (\<lambda>r. c0 r \<noteq> None \<and> c1 r \<noteq> None) ?rows"
    using assms by (auto simp: columns_present_def split: option.splits)
  then obtain handle1 users anon where
    l: "load_rows lib strip (strip_db_esc (service w)) ?rows (auth_handle w, 0, False) =
          Inr (handle1, users, anon)"
    using load_rows_returns [of ?rows lib strip "strip_db_esc (service w)" "(auth_handle w, 0, False)"]
    by auto
  have "list_all (\<lambda>d. d \<noteq> None) ?ds"
    using assms by (auto simp: columns_present_def split: option.splits)
  then obtain handle2 where
    "exec_dump (\<lambda>r h. add_database lib h r) ?ds handle1 = Inr handle2"
    using add_databases_returns by blast
  with False l show ?thesis
    by (simp add: get_users_from_server_def Let_def)
qed

lemma get_users_loop_returns:
  "list_all columns_present servers \<Longrightarrow>
   \<exists>res. get_users_loop lib uninit strip servers tot w = Inr res"
proof (induction servers arbitrary: tot w)
  case Nil
  show ?case by simp
next
  case (Cons server rest)
  then have rest: "\<exists>res. get_users_loop lib uninit strip rest tot' w' = Inr res" for tot' w'
    by simp
  from Cons.prems obtain users server1 w1 where
    s: "get_users_from_server lib uninit strip server w = Inr (users, server1, w1)"
    using get_users_from_server_returns [of server lib uninit strip w] by auto
  show ?case
  proof (cases "svc_do_shutdown (service w) \<or> \<not> con_init_ok server \<or> \<not> connect_ok server")
    case True
    then show ?thesis
      using rest [of tot w] by (auto split: sum.splits prod.splits)
  next
    case False
    obtain res where
      r: "get_users_loop lib uninit strip rest (if users > tot then users else tot) w1 = Inr res"
      using rest by blast
    obtain t rest1 w2 where "res = (t, rest1, w2)"
      by (cases res) auto
    with False s r show ?thesis
      by (simp add: Let_def)
  qed
qed

lemma get_users_returns:
  assumes "list_all columns_present (dbref (service w))"
  shows "\<exists>i w1. get_users lib uninit strip w users = Inr (i, w1)"
  using get_users_loop_returns [OF assms, of lib uninit strip "-1" w]
  by (auto simp: get_users_def split: option.splits prod.splits)

lemma alloc_world:
  "mysql_users_alloc True True w = (Some (length (heap w)), w\<lparr>heap := heap w @ [Some empty_users]\<rparr>)"
  by (simp add: mysql_users_alloc_def)

text \<open>
  Claim C9. Let the listener hold a users table at address \<open>p\<close>, let the allocation
  of the new table succeed and let \<^verbatim>\<open>get_users\<close> return \<open>i\<close>, at most 0. Then
  \<^verbatim>\<open>replace_mysql_users\<close> returns \<open>i\<close>; the listener still points to \<open>p\<close>; every
  address of the store, \<open>p\<close> among them, holds what it held before the call; and the cell
  of the new table is free again.
\<close>

theorem replace_mysql_users_failure_keeps_table:
  assumes "listener_users w = Some p"
    and "get_users lib uninit strip (snd (mysql_users_alloc True True w)) (length (heap w)) = Inr (i, w1)"
    and "i \<le> 0"
  shows "replace_mysql_users lib True True uninit strip w = Inr (i, users_free (length (heap w)) w1) \<and>
         listener_users (users_free (length (heap w)) w1) = Some p \<and>
         users_at (users_free (length (heap w)) w1) p = users_at w p \<and>
         (\<forall>a. users_at (users_free (length (heap w)) w1) a = users_at w a) \<and>
         users_at (users_free (length (heap w)) w1) (length (heap w)) = None"
proof -
  let ?new = "length (heap w)"
  let ?w0 = "w\<lparr>heap := heap w @ [Some empty_users]\<rparr>"
  from assms(2) have g: "get_users lib uninit strip ?w0 ?new = Inr (i, w1)"
    by (simp add: alloc_world)
  then have frame: "heap w1 = heap ?w0 \<and> listener_users w1 = listener_users ?w0"
    by (rule get_users_frame)
  with assms(1) have lu: "listener_users w1 = Some p"
    by simp
  have ret: "replace_mysql_users lib True True uninit strip w = Inr (i, users_free ?new w1)"
    using g lu assms(3) by (simp add: replace_mysql_users_def alloc_world)
  have heap': "heap (users_free ?new w1) = heap w @ [None]"
    using frame by (simp add: users_free_def)
  have same: "users_at (users_free ?new w1) a = users_at w a" for a
    unfolding users_at_def heap' by (auto simp: nth_append less_Suc_eq)
  have "users_at (users_free ?new w1) ?new = None"
    unfolding users_at_def heap' by simp
  with ret lu same show ?thesis
    by (simp add: users_free_def)
qed

theorem replace_mysql_users_failure_keeps_table_witness:
  "listener_users world_with_table = Some 0 \<and>
   get_users sqlite_syntax_error (-1) (\<lambda>c. c) (snd (mysql_users_alloc True True world_with_table)) 1 =
     Inr (0, world_with_table
               \<lparr>heap := [Some example_table, Some empty_users],
                auth_handle := empty_db\<lparr>databases_table := [Some ''test'']\<rparr>,
                service := example_service
                  \<lparr>dbref := [example_backend\<lparr>server_string := Some ''10.2.6-MariaDB''\<rparr>],
                   localhost_match_wildcard_host := 1\<rparr>\<rparr>) \<and>
   fst (projr (replace_mysql_users sqlite_syntax_error True True (-1) (\<lambda>c. c) world_with_table)) = 0 \<and>
   listener_users (snd (projr (replace_mysql_users sqlite_syntax_error True True (-1) (\<lambda>c. c) world_with_table))) = Some 0 \<and>
   users_at (snd (projr (replace_mysql_users sqlite_syntax_error True True (-1) (\<lambda>c. c) world_with_table))) 0 =
     Some example_table \<and>
   users_at (snd (projr (replace_mysql_users sqlite_syntax_error True True (-1) (\<lambda>c. c) world_with_table))) 1 = None"
proof -
  have l: "listener_users world_with_table = Some 0" and n: "length (heap world_with_table) = 1"
    by (simp_all add: world_with_table_def)
  have q: "get_new_users_query True ''10.2.6-MariaDB'' False \<noteq> None"
    by (simp add: get_new_users_query_def)
  have b: "con_init_ok example_backend" "connect_ok example_backend"
    by (simp_all add: example_backend_def)
  define w0 where "w0 = snd (mysql_users_alloc True True world_with_table)"
  have w0: "w0 = world_with_table\<lparr>heap := [Some example_table, Some empty_users]\<rparr>"
    by (simp add: w0_def alloc_world world_with_table_def)
  have sv: "service w0 = example_service"
    by (simp add: w0 world_with_table_def)
  have s: "get_users_from_server sqlite_syntax_error (-1) (\<lambda>c. c) example_backend w0 =
           Inr (0, example_backend\<lparr>server_string := Some ''10.2.6-MariaDB''\<rparr>,
                w0\<lparr>auth_handle := empty_db\<lparr>databases_table := [Some ''test'']\<rparr>,
                   service := example_service\<lparr>localhost_match_wildcard_host := 1\<rparr>\<rparr>)"
    using q
    by (auto simp: get_users_from_server_def w0 world_with_table_def example_backend_def
        example_service_def add_database_def has_quote_def empty_db_def Let_def
        sqlite_syntax_error_def split: option.splits)
  have loop: "get_users_loop sqlite_syntax_error (-1) (\<lambda>c. c) [example_backend] (-1) w0 =
           Inr (0, [example_backend\<lparr>server_string := Some ''10.2.6-MariaDB''\<rparr>],
                w0\<lparr>auth_handle := empty_db\<lparr>databases_table := [Some ''test'']\<rparr>,
                   service := example_service\<lparr>localhost_match_wildcard_host := 1\<rparr>\<rparr>)"
    using b by (simp add: s sv) (simp add: example_service_def)
  have sd: "dbref (service w0) = [example_backend]"
    "service_user (service w0) = Some (''maxuser'', ''maxpwd'')" "decrypt_ok (service w0)"
    by (simp_all add: sv example_service_def)
  have "get_users sqlite_syntax_error (-1) (\<lambda>c. c) w0 1 =
     Inr (0, (w0\<lparr>auth_handle := empty_db\<lparr>databases_table := [Some ''test'']\<rparr>,
                 service := example_service\<lparr>localhost_match_wildcard_host := 1\<rparr>\<rparr>)
               \<lparr>service := (example_service\<lparr>localhost_match_wildcard_host := 1\<rparr>)
                  \<lparr>dbref := [example_backend\<lparr>server_string := Some ''10.2.6-MariaDB''\<rparr>]\<rparr>\<rparr>)"
    by (simp add: get_users_def sd loop del: get_users_loop.simps)
  also have "\<dots> =
     Inr (0, world_with_table
               \<lparr>heap := [Some example_table, Some empty_users],
                auth_handle := empty_db\<lparr>databases_table := [Some ''test'']\<rparr>,
                service := example_service
                  \<lparr>dbref := [example_backend\<lparr>server_string := Some ''10.2.6-MariaDB''\<rparr>],
                   localhost_match_wildcard_host := 1\<rparr>\<rparr>)"
    by (simp add: w0 world_with_table_def example_service_def)
  finally have "get_users sqlite_syntax_error (-1) (\<lambda>c. c) w0 1 =
     Inr (0, world_with_table
               \<lparr>heap := [Some example_table, Some empty_users],
                auth_handle := empty_db\<lparr>databases_table := [Some ''test'']\<rparr>,
                service := example_service
                  \<lparr>dbref := [example_backend\<lparr>server_string := Some ''10.2.6-MariaDB''\<rparr>],
                   localhost_match_wildcard_host := 1\<rparr>\<rparr>)" .
  then have g: "get_users sqlite_syntax_error (-1) (\<lambda>c. c) (snd (mysql_users_alloc True True world_with_table)) 1 =
     Inr (0, world_with_table
               \<lparr>heap := [Some example_table, Some empty_users],
                auth_handle := empty_db\<lparr>databases_table := [Some ''test'']\<rparr>,
                service := example_service
                  \<lparr>dbref := [example_backend\<lparr>server_string := Some ''10.2.6-MariaDB''\<rparr>],
                   localhost_match_wildcard_host := 1\<rparr>\<rparr>)"
    by (simp only: w0_def)
  have u: "users_at world_with_table 0 = Some example_table"
    "users_at world_with_table 1 = None"
    by (simp_all add: users_at_def world_with_table_def)
  show ?thesis
    using l g u
      replace_mysql_users_failure_keeps_table [OF l, where uninit = "-1" and strip = "\<lambda>c. c",
        unfolded n, OF g]
    by simp
qed

text \<open>
  Claim C10. Let the listener hold no users table, let the allocation of the new table
  succeed and let \<^verbatim>\<open>get_users\<close> return \<open>i\<close>, at most 0. Then
  \<^verbatim>\<open>replace_mysql_users\<close> returns \<open>i\<close>, the failure, and the listener points to
  the new table, which is allocated and empty.
\<close>

theorem replace_mysql_users_failure_installs_empty_table:
  assumes "listener_users w = None"
    and "get_users lib uninit strip (snd (mysql_users_alloc True True w)) (length (heap w)) = Inr (i, w1)"
    and "i \<le> 0"
  shows "replace_mysql_users lib True True uninit strip w =
           Inr (i, w1\<lparr>listener_users := Some (length (heap w))\<rparr>) \<and>
         listener_users (w1\<lparr>listener_users := Some (length (heap w))\<rparr>) \<noteq> None \<and>
         users_at (w1\<lparr>listener_users := Some (length (heap w))\<rparr>) (length (heap w)) =
           Some empty_users"
proof -
  let ?new = "length (heap w)"
  let ?w0 = "w\<lparr>heap := heap w @ [Some empty_users]\<rparr>"
  from assms(2) have g: "get_users lib uninit strip ?w0 ?new = Inr (i, w1)"
    by (simp add: alloc_world)
  then have frame: "heap w1 = heap ?w0 \<and> listener_users w1 = listener_users ?w0"
    by (rule get_users_frame)
  with assms(1) have lu: "listener_users w1 = None"
    by simp
  have "replace_mysql_users lib True True uninit strip w = Inr (i, w1\<lparr>listener_users := Some ?new\<rparr>)"
    using g lu assms(3) by (simp add: replace_mysql_users_def alloc_world)
  moreover have "users_at (w1\<lparr>listener_users := Some ?new\<rparr>) ?new = Some empty_users"
    using frame by (simp add: users_at_def)
  ultimately show ?thesis by simp
qed

theorem replace_mysql_users_failure_installs_empty_table_witness:
  "listener_users world_without_table = None \<and>
   get_users sqlite_syntax_error (-1) (\<lambda>c. c) (snd (mysql_users_alloc True True world_without_table)) 0 =
     Inr (-1, world_without_table\<lparr>heap := [Some empty_users]\<rparr>) \<and>
   replace_mysql_users sqlite_syntax_error True True (-1) (\<lambda>c. c) world_without_table =
     Inr (-1, world_without_table\<lparr>heap := [Some empty_users], listener_users := Some 0\<rparr>) \<and>
   users_at (world_without_table\<lparr>heap := [Some empty_users], listener_users := Some 0\<rparr>) 0 =
     Some empty_users"
proof -
  have l: "listener_users world_without_table = None" and n: "length (heap world_without_table) = 0"
    by (simp_all add: world_without_table_def)
  have g: "get_users sqlite_syntax_error (-1) (\<lambda>c. c) (snd (mysql_users_alloc True True world_without_table)) 0 =
     Inr (-1, world_without_table\<lparr>heap := [Some empty_users]\<rparr>)"
    by (simp add: get_users_def alloc_world world_without_table_def)
  show ?thesis
    using l g
      replace_mysql_users_failure_installs_empty_table [OF l, where uninit = "-1"
        and strip = "\<lambda>c. c", unfolded n, OF g]
    by simp
qed

subsection \<open>Password check\<close>

lemma length_sha1: "length (sha1 msg) = 20"
  by (simp add: sha1_def bytes_of_32_def split: prod.splits)

lemma replicate_numeral: "replicate (numeral v) x = x # replicate (numeral v - 1) x"
  by (simp add: numeral_eq_Suc)

lemmas sha1_eval = sha1_def sha1_pad_def bytes_of_64_def bytes_of_32_def replicate_numeral
  sha1_blocks.simps sha1_schedule_def sha1_extend.simps rotl32_def sha1_f_def sha1_k_def

text \<open>The digest of the three bytes \<open>abc\<close>, the first test vector of the standard.\<close>

lemma sha1_abc:
  "sha1 [0x61, 0x62, 0x63] =
     [0xA9, 0x99, 0x3E, 0x36, 0x47, 0x06, 0x81, 0x6A, 0xBA, 0x3E,
      0x25, 0x71, 0x78, 0x50, 0xC2, 0x6C, 0x9C, 0xD0, 0xD8, 0x9D]"
  by (simp add: sha1_eval)

lemma sha1_zeros:
  "sha1 (replicate 20 0) =
     [0x67, 0x68, 0x03, 0x3E, 0x21, 0x64, 0x68, 0x24, 0x7B, 0xD0,
      0x31, 0xA0, 0xA2, 0xD9, 0x87, 0x6D, 0x79, 0x81, 0x8F, 0x8F]"
  by (simp add: sha1_eval)

lemma hex_val_digit: "n < 16 \<Longrightarrow> hex_val (hex_digit n) = Some (of_nat n)"
proof -
  have "list_all (\<lambda>n. hex_val (hex_digit n) = Some (of_nat n)) [0..<16]"
    by (simp add: hex_val_def hex_digit_def upt_rec [of _ 16] numeral_eq_Suc)
  then show "n < 16 \<Longrightarrow> hex_val (hex_digit n) = Some (of_nat n)"
    by (simp add: list_all_iff)
qed

lemma high_nibble: "unat (drop_bit 4 (b :: byte)) < 16"
proof -
  have "unat (drop_bit 4 b) = unat b div 16"
    by (simp add: drop_bit_eq_div unat_div)
  moreover have "unat b < 256"
    using unsigned_less [of b] by simp
  ultimately show ?thesis by simp
qed

lemma mask15: "(15 :: byte) = mask 4"
  by (simp add: mask_eq_exp_minus_1)

lemma low_nibble: "unat ((b :: byte) AND 15) < 16"
proof -
  have "unat (b AND 15) = unat (take_bit 4 b)"
    by (simp add: mask15 take_bit_eq_mask)
  also have "\<dots> = take_bit 4 (unat b)"
    by (simp add: unsigned_take_bit_eq)
  also have "\<dots> < 16"
    by (simp add: take_bit_eq_mod)
  finally show ?thesis .
qed

lemma nibbles_join: "push_bit 4 (drop_bit 4 (b :: byte)) OR (b AND 15) = b"
proof -
  have "push_bit 4 (drop_bit 4 b) OR take_bit 4 b = b"
    by (rule bit_eqI) (auto simp: bit_simps)
  then show ?thesis
    by (simp add: mask15 take_bit_eq_mask)
qed
lemma gw_hex2bin_hex: "gw_hex2bin (hex_of_bytes bs) = Some bs"
proof (induction bs)
  case Nil
  show ?case by (simp add: hex_of_bytes_def)
next
  case (Cons b bs)
  have h: "hex_val (hex_digit (unat (drop_bit 4 b))) = Some (drop_bit 4 b)"
    using hex_val_digit [OF high_nibble [of b]] by simp
  have l: "hex_val (hex_digit (unat (b AND 15))) = Some (b AND 15)"
    using hex_val_digit [OF low_nibble [of b]] by simp
  have "hex_of_bytes (b # bs) =
          hex_digit (unat (drop_bit 4 b)) # hex_digit (unat (b AND 15)) # hex_of_bytes bs"
    by (simp add: hex_of_bytes_def)
  then show ?case
    using Cons.IH h l by (simp add: nibbles_join)
qed

lemma hex_of_bytes_Nil_iff: "hex_of_bytes bs = [] \<longleftrightarrow> bs = []"
  by (cases bs) (simp_all add: hex_of_bytes_def)

lemma gw_str_xor_cancel:
  "length xs = length ys \<Longrightarrow> gw_str_xor (gw_str_xor xs ys) ys = xs"
proof (induction xs arbitrary: ys)
  case Nil
  show ?case by (simp add: gw_str_xor_def)
next
  case (Cons x xs)
  then obtain y ys' where ys: "ys = y # ys'" and "length xs = length ys'"
    by (cases ys) auto
  with Cons.IH [of ys'] show ?case
    by (simp add: gw_str_xor_def bit.xor_self xor.assoc)
qed

lemma length_gw_str_xor: "length (gw_str_xor xs ys) = min (length xs) (length ys)"
  by (simp add: gw_str_xor_def)

text \<open>
  Claim C2. For every scramble \<open>S\<close>, of 20 bytes or of another length, and every
  password \<open>P\<close>: with the stored text the capital hexadecimal form of SHA1(SHA1(P)) and
  the token SHA1(P) XOR SHA1(S followed by SHA1(SHA1(P))), \<^verbatim>\<open>check_password\<close>
  returns true and copies the 20 bytes SHA1(P) to \<^verbatim>\<open>phase2_scramble\<close>, whatever
  the uninitialised bytes were.
\<close>

theorem check_password_accepts_native_token:
  "check_password step2_uninit (hex_of_bytes (sha1 (sha1 P)))
     (gw_str_xor (sha1 P) (sha1 (S @ sha1 (sha1 P)))) S = Inr (True, sha1 P)"
proof -
  let ?stored = "sha1 (sha1 P)"
  let ?step1 = "sha1 (S @ ?stored)"
  let ?token = "gw_str_xor (sha1 P) ?step1"
  have ne: "hex_of_bytes ?stored \<noteq> []"
    using length_sha1 [of "sha1 P"] by (auto simp: hex_of_bytes_Nil_iff)
  have tl: "length ?token = 20"
    by (simp add: length_gw_str_xor length_sha1)
  have x: "gw_str_xor ?token ?step1 = sha1 P"
    by (rule gw_str_xor_cancel) (simp add: length_sha1)
  show ?thesis
    using ne
    by (simp add: check_password_def gw_hex2bin_hex length_sha1 SHA_DIGEST_LENGTH_def
        gw_sha1_2_str_def gw_sha1_str_def tl x Let_def)
qed

theorem check_password_accepts_native_token_witness:
  "length example_scramble = 20 \<and>
   check_password zero_stack (hex_of_bytes (sha1 (sha1 example_password)))
     (gw_str_xor (sha1 example_password)
        (sha1 (example_scramble @ sha1 (sha1 example_password)))) example_scramble =
   Inr (True, sha1 example_password)"
  using check_password_accepts_native_token [of zero_stack example_password example_scramble]
  by (simp add: example_scramble_def)

lemma check_password_empty_token:
  "check_password step2_uninit [] [] S =
     Inr (sha1 (map step2_uninit [0..<20]) = replicate 20 0, map step2_uninit [0..<20])"
  by (simp add: check_password_def SHA_DIGEST_LENGTH_def gw_str_xor_def gw_sha1_str_def Let_def)

lemma check_password_empty_token_stored:
  "check_password (\<lambda>i. sha1 P ! i) (hex_of_bytes (sha1 (sha1 P))) [] S = Inr (True, sha1 P)"
proof -
  have ne: "hex_of_bytes (sha1 (sha1 P)) \<noteq> []"
    using length_sha1 [of "sha1 P"] by (auto simp: hex_of_bytes_Nil_iff)
  have "map (\<lambda>i. sha1 P ! i) [0..<20] = sha1 P"
    using map_nth [of "sha1 P"] by (simp add: length_sha1)
  then show ?thesis
    using ne
    by (simp add: check_password_def gw_hex2bin_hex length_sha1 SHA_DIGEST_LENGTH_def
        gw_str_xor_def gw_sha1_str_def Let_def)
qed

text \<open>
  Claim C6. The claim asks that an empty stored text with an empty token returns true.
  With an empty token \<^verbatim>\<open>gw_str_xor\<close> writes nothing to \<^verbatim>\<open>step2\<close>, and the
  function compares the digest of its 20 uninitialised bytes with the 20 zero bytes of
  \<^verbatim>\<open>stored_token\<close>: with zeros on the stack the digest starts 67 68 03 3E and the
  function returns false for the account without a password.
\<close>

theorem check_password_rejects_passwordless:
  "check_password zero_stack [] [] example_scramble = Inr (False, replicate 20 0)"
proof -
  have "map zero_stack [0..<20] = replicate 20 0"
    using map_replicate_const [of "0 :: byte" "[0..<20]"]
    by (simp add: zero_stack_def [abs_def])
  moreover have "sha1 (replicate 20 0) \<noteq> replicate 20 0"
    unfolding sha1_zeros by (simp add: replicate_numeral)
  ultimately show ?thesis
    by (simp add: check_password_empty_token)
qed

end
